theory Spec2Isabelle
  imports Complex_Main "HOL-Library.Stream"
begin

section \<open>Data model\<close>

text \<open>
  The program is a single Python module, \<^verbatim>\<open>main.py\<close>, with the classes
  \<^verbatim>\<open>Exchange\<close> and \<^verbatim>\<open>ArbitrageBot\<close>. Python floats are idealised as
  \<^typ>\<open>real\<close> numbers (no rounding, no infinities, no NaN); the counters are
  natural numbers. Every exception the methods can raise on such values is a
  value of the type \<open>error\<close>.
\<close>

datatype error = KeyError | IndexError | ZeroDivisionError

text \<open>Python's \<^verbatim>\<open>a / b\<close> on numbers: it raises when the divisor is zero.\<close>

definition truediv :: "real \<Rightarrow> real \<Rightarrow> error + real" where
  "truediv a b = (if b = 0 then Inl ZeroDivisionError else Inr (a / b))"

text \<open>
  The module-level generator of \<^verbatim>\<open>random\<close> is hidden global state. It is made
  explicit as the stream of the values that the successive calls of
  \<^verbatim>\<open>random.random()\<close> return (each in the interval from 0 to 1);
  \<^verbatim>\<open>random.uniform(a, b)\<close> is the library's \<^verbatim>\<open>a + (b - a) * random()\<close>.
\<close>

type_synonym rng = "real stream"

definition uniform :: "real \<Rightarrow> real \<Rightarrow> rng \<Rightarrow> real \<times> rng" where
  "uniform a b g = (a + (b - a) * shd g, stl g)"

record Exchange =
  name :: string
  trading_fee :: real
  price_variation :: real

text \<open>
  An opportunity is the 8-tuple that \<^verbatim>\<open>find_arbitrage_opportunity\<close> builds:
  coin, buy exchange, sell exchange, buy price, sell price, profit percentage,
  buy fee, sell fee.
\<close>

type_synonym opportunity =
  "string \<times> Exchange \<times> Exchange \<times> real \<times> real \<times> real \<times> real \<times> real"

text \<open>The dictionary that \<^verbatim>\<open>execute_trade\<close> records for a trade.\<close>

record TradeRecord =
  tr_timestamp :: string
  tr_coin :: string
  tr_quantity :: real
  tr_buy_exchange :: string
  tr_sell_exchange :: string
  tr_buy_price :: real
  tr_sell_price :: real
  tr_buy_fee :: real
  tr_sell_fee :: real
  tr_total_fees :: real
  tr_net_profit :: real
  tr_profit_pct :: real
  tr_capital_after :: real

text \<open>
  The fields of an \<^verbatim>\<open>ArbitrageBot\<close>. A Python dictionary keeps its keys in
  insertion order, so \<^verbatim>\<open>base_prices\<close> is an association list (of distinct
  keys).
\<close>

record ArbitrageBot =
  capital :: real
  exchanges :: "Exchange list"
  base_prices :: "(string \<times> real) list"
  coins :: "string list"
  trades :: "TradeRecord list"
  total_profit :: real
  successful_trades :: nat
  failed_trades :: nat

section \<open>Dictionaries in insertion order\<close>

text \<open>
  \<^verbatim>\<open>d[k] = v\<close>: a key that is already present keeps its position and takes
  the new value; a new key is appended.
\<close>

fun dict_set :: "('k \<times> 'v) list \<Rightarrow> 'k \<Rightarrow> 'v \<Rightarrow> ('k \<times> 'v) list" where
  "dict_set [] k v = [(k, v)]"
| "dict_set ((k', v') # d) k v =
     (if k' = k then (k', v) # d else (k', v') # dict_set d k v)"

text \<open>\<^verbatim>\<open>d[k]\<close>: raises \<^verbatim>\<open>KeyError\<close> on a missing key.\<close>

definition dict_get :: "('k \<times> 'v) list \<Rightarrow> 'k \<Rightarrow> error + 'v" where
  "dict_get d k = (case map_of d k of None \<Rightarrow> Inl KeyError | Some v \<Rightarrow> Inr v)"

section \<open>Class Exchange\<close>

text \<open>
  \<^verbatim>\<open>Exchange.__init__\<close> (lines 10-13) stores its three arguments; it has no
  check and no raise, so it is a total function.
\<close>

definition Exchange_init :: "string \<Rightarrow> real \<Rightarrow> real \<Rightarrow> Exchange" where
  "Exchange_init n fee var = \<lparr>name = n, trading_fee = fee, price_variation = var\<rparr>"

text \<open>\<^verbatim>\<open>get_price\<close> (lines 15-22): one draw of the generator.\<close>

definition get_price :: "Exchange \<Rightarrow> string \<Rightarrow> real \<Rightarrow> rng \<Rightarrow> real \<times> rng" where
  "get_price self coin base_price g =
     (let (u, g') = uniform (- price_variation self) (price_variation self) g;
          variation = 1 + u
      in (base_price * variation, g'))"

text \<open>\<^verbatim>\<open>calculate_fee\<close> (lines 24-26).\<close>

definition calculate_fee :: "Exchange \<Rightarrow> real \<Rightarrow> real" where
  "calculate_fee self amount = amount * (trading_fee self / 100)"

section \<open>Class ArbitrageBot\<close>

text \<open>
  \<^verbatim>\<open>ArbitrageBot.__init__\<close> (lines 32-62): the only parameter is the
  initial capital; the four exchanges and the eight base prices are literals
  of the constructor. There is no check and no raise.
\<close>

definition ArbitrageBot_init :: "real \<Rightarrow> ArbitrageBot" where
  "ArbitrageBot_init initial_capital =
     (let bp = [(''BTC'', 45000.0), (''ETH'', 2500.0), (''BNB'', 320.0), (''SOL'', 100.0),
                (''ADA'', 0.50), (''XRP'', 0.60), (''DOGE'', 0.08), (''MATIC'', 0.85)]
      in \<lparr>capital = initial_capital,
          exchanges = [Exchange_init ''Binance'' 0.1 0.015,
                       Exchange_init ''Coinbase'' 0.5 0.02,
                       Exchange_init ''Kraken'' 0.26 0.018,
                       Exchange_init ''Bybit'' 0.1 0.012],
          base_prices = bp,
          coins = map fst bp,
          trades = [],
          total_profit = 0,
          successful_trades = 0,
          failed_trades = 0\<rparr>)"

text \<open>
  \<^verbatim>\<open>update_market_prices\<close> (lines 64-72): every entry of the dictionary, in
  order, is multiplied by one plus a draw from \<^verbatim>\<open>uniform(-0.005, 0.005)\<close>.
\<close>

fun update_prices :: "(string \<times> real) list \<Rightarrow> rng \<Rightarrow> (string \<times> real) list \<times> rng" where
  "update_prices [] g = ([], g)"
| "update_prices ((coin, p) # rest) g =
     (let (market_change, g') = uniform (- 0.005) 0.005 g;
          (rest', g'') = update_prices rest g'
      in ((coin, p * (1 + market_change)) # rest', g''))"

definition update_market_prices :: "ArbitrageBot \<Rightarrow> rng \<Rightarrow> ArbitrageBot \<times> rng" where
  "update_market_prices self g =
     (let (bp, g') = update_prices (base_prices self) g
      in (self\<lparr>base_prices := bp\<rparr>, g'))"

subsection \<open>The scanner\<close>

text \<open>
  The inner loop of \<^verbatim>\<open>find_arbitrage_opportunity\<close> (lines 90-95): the
  dictionary \<^verbatim>\<open>prices\<close> maps an exchange name to the pair of the quoted
  price and the exchange.
\<close>

type_synonym price_dict = "(string \<times> real \<times> Exchange) list"

fun collect_prices ::
  "Exchange list \<Rightarrow> string \<Rightarrow> real \<Rightarrow> price_dict \<Rightarrow> rng \<Rightarrow> price_dict \<times> rng" where
  "collect_prices [] coin base_price prices g = (prices, g)"
| "collect_prices (exchange # rest) coin base_price prices g =
     (let (price, g') = get_price exchange coin base_price g
      in collect_prices rest coin base_price
           (dict_set prices (name exchange) (price, exchange)) g')"

text \<open>
  Lines 97-124 for one coin. \<^verbatim>\<open>sorted\<close> is stable, as \<^const>\<open>sort_key\<close> is;
  \<^verbatim>\<open>sorted_prices[0]\<close> and \<^verbatim>\<open>sorted_prices[-1]\<close> raise \<^verbatim>\<open>IndexError\<close> on
  an empty list, and the division of line 115 raises on a zero net buy price.
\<close>

definition evaluate_coin :: "string \<Rightarrow> price_dict \<Rightarrow> error + opportunity" where
  "evaluate_coin coin prices =
     (let sorted_prices = sort_key (\<lambda>x. fst (snd x)) prices
      in if sorted_prices = [] then Inl IndexError
         else
           let buy_exchange = snd (snd (hd sorted_prices));
               sell_exchange = snd (snd (last sorted_prices));
               buy_price = fst (snd (hd sorted_prices));
               sell_price = fst (snd (last sorted_prices));
               buy_fee = calculate_fee buy_exchange buy_price;
               sell_fee = calculate_fee sell_exchange sell_price;
               net_buy_price = buy_price + buy_fee;
               net_sell_price = sell_price - sell_fee
           in case truediv (net_sell_price - net_buy_price) net_buy_price of
                Inl e \<Rightarrow> Inl e
              | Inr q \<Rightarrow>
                  Inr (coin, buy_exchange, sell_exchange, buy_price, sell_price,
                       q * 100, buy_fee, sell_fee))"

text \<open>The quotes and the candidate of one coin (lines 86-115).\<close>

definition scan_coin ::
  "Exchange list \<Rightarrow> string \<Rightarrow> real \<Rightarrow> rng \<Rightarrow> error + (opportunity \<times> rng)" where
  "scan_coin exs coin base_price g =
     (let (prices, g') = collect_prices exs coin base_price [] g
      in case evaluate_coin coin prices of
           Inl e \<Rightarrow> Inl e
         | Inr opp \<Rightarrow> Inr (opp, g'))"

definition profit_pct_of :: "opportunity \<Rightarrow> real" where
  "profit_pct_of opp = (case opp of (c, be, se, bp, sp, pct, bf, sf) \<Rightarrow> pct)"

text \<open>
  The outer loop (lines 85-124) over the coins still to scan, with the local
  variables \<^verbatim>\<open>best_opportunity\<close> and \<^verbatim>\<open>best_profit_pct\<close>.
\<close>

fun scan_coins ::
  "ArbitrageBot \<Rightarrow> real \<Rightarrow> string list \<Rightarrow> opportunity option \<Rightarrow> real \<Rightarrow> rng
     \<Rightarrow> error + (opportunity option \<times> rng)" where
  "scan_coins self min_profit_threshold [] best_opportunity best_profit_pct g =
     Inr (best_opportunity, g)"
| "scan_coins self min_profit_threshold (coin # rest) best_opportunity best_profit_pct g =
     (case dict_get (base_prices self) coin of
        Inl e \<Rightarrow> Inl e
      | Inr base_price \<Rightarrow>
          (case scan_coin (exchanges self) coin base_price g of
             Inl e \<Rightarrow> Inl e
           | Inr (opp, g') \<Rightarrow>
               if profit_pct_of opp > best_profit_pct
                  \<and> profit_pct_of opp \<ge> min_profit_threshold
               then scan_coins self min_profit_threshold rest
                      (Some opp) (profit_pct_of opp) g'
               else scan_coins self min_profit_threshold rest
                      best_opportunity best_profit_pct g'))"

text \<open>\<^verbatim>\<open>find_arbitrage_opportunity\<close> (lines 74-126).\<close>

definition find_arbitrage_opportunity ::
  "ArbitrageBot \<Rightarrow> real \<Rightarrow> rng \<Rightarrow> error + (opportunity option \<times> rng)" where
  "find_arbitrage_opportunity self min_profit_threshold g =
     scan_coins self min_profit_threshold (coins self) None 0 g"

subsection \<open>The ledger\<close>

text \<open>
  \<^verbatim>\<open>execute_trade\<close> (lines 128-171). The timestamp read from the clock is a
  parameter. The result is the updated bot and the returned record.
\<close>

definition execute_trade ::
  "ArbitrageBot \<Rightarrow> opportunity option \<Rightarrow> string
     \<Rightarrow> error + (ArbitrageBot \<times> TradeRecord option)" where
  "execute_trade self opportunity now =
     (case opportunity of
        None \<Rightarrow> Inr (self\<lparr>failed_trades := failed_trades self + 1\<rparr>, None)
      | Some (coin, buy_ex, sell_ex, buy_price, sell_price, profit_pct, buy_fee, sell_fee) \<Rightarrow>
          (let trade_amount = capital self * 0.1
           in (case truediv trade_amount buy_price of
               Inl e \<Rightarrow> Inl e
             | Inr quantity \<Rightarrow>
                 let total_buy_cost = (buy_price * quantity) + (buy_fee * quantity);
                     total_sell_revenue = (sell_price * quantity) - (sell_fee * quantity);
                     net_profit = total_sell_revenue - total_buy_cost;
                     self1 = self\<lparr>capital := capital self + net_profit,
                                  total_profit := total_profit self + net_profit,
                                  successful_trades := successful_trades self + 1\<rparr>;
                     trade_record =
                       \<lparr>tr_timestamp = now,
                        tr_coin = coin,
                        tr_quantity = quantity,
                        tr_buy_exchange = name buy_ex,
                        tr_sell_exchange = name sell_ex,
                        tr_buy_price = buy_price,
                        tr_sell_price = sell_price,
                        tr_buy_fee = buy_fee * quantity,
                        tr_sell_fee = sell_fee * quantity,
                        tr_total_fees = (buy_fee + sell_fee) * quantity,
                        tr_net_profit = net_profit,
                        tr_profit_pct = profit_pct,
                        tr_capital_after = capital self1\<rparr>
                 in Inr (self1\<lparr>trades := trades self1 @ [trade_record]\<rparr>,
                         Some trade_record))))"

subsection \<open>The aggregate summary\<close>

text \<open>
  \<^verbatim>\<open>print_overall_summary\<close> (lines 201-221) prints one line for each figure.
  The model returns the figures printed, in order, and the exception that
  ended the method, if one did. The banner lines carry no figure and are left
  out.
\<close>

datatype summary_line =
    TotalIterations nat
  | SuccessfulTrades nat
  | MissedOpportunities nat
  | SuccessRate real
  | TotalProfit real
  | FinalCapital real
  | ROI real
  | AvgProfit real

definition roi_lines :: "ArbitrageBot \<Rightarrow> summary_line list \<times> error option" where
  "roi_lines self =
     (if capital self - total_profit self > 0
      then (case truediv (total_profit self) (capital self - total_profit self) of
              Inl e \<Rightarrow> ([], Some e)
            | Inr q \<Rightarrow> ([ROI (q * 100)], None))
      else ([], None))"

definition avg_lines :: "ArbitrageBot \<Rightarrow> summary_line list \<times> error option" where
  "avg_lines self =
     (if successful_trades self > 0
      then (case truediv (total_profit self) (real (successful_trades self)) of
              Inl e \<Rightarrow> ([], Some e)
            | Inr avg_profit \<Rightarrow> ([AvgProfit avg_profit], None))
      else ([], None))"

definition print_overall_summary :: "ArbitrageBot \<Rightarrow> summary_line list \<times> error option" where
  "print_overall_summary self =
     (let head = [TotalIterations (successful_trades self + failed_trades self),
                  SuccessfulTrades (successful_trades self),
                  MissedOpportunities (failed_trades self)]
      in (case truediv (real (successful_trades self))
                (real (successful_trades self + failed_trades self)) of
           Inl e \<Rightarrow> (head, Some e)
         | Inr q \<Rightarrow>
             (let out1 = head @ [SuccessRate (q * 100),
                                 TotalProfit (total_profit self),
                                 FinalCapital (capital self)]
              in (case roi_lines self of
                  (ls, Some e) \<Rightarrow> (out1 @ ls, Some e)
                | (ls, None) \<Rightarrow>
                    (case avg_lines self of
                       (ls', err) \<Rightarrow> (out1 @ ls @ ls', err))))))"

subsection \<open>The driver\<close>

text \<open>
  One pass of the loop of \<^verbatim>\<open>run\<close> (lines 250-256): the market moves, the
  scanner runs, the ledger executes. Printing and the pause have no effect on
  the bot.
\<close>

definition run_iteration ::
  "ArbitrageBot \<Rightarrow> real \<Rightarrow> string \<Rightarrow> rng
     \<Rightarrow> error + (ArbitrageBot \<times> TradeRecord option \<times> rng)" where
  "run_iteration self min_profit now g =
     (let (self1, g1) = update_market_prices self g
      in case find_arbitrage_opportunity self1 min_profit g1 of
           Inl e \<Rightarrow> Inl e
         | Inr (opportunity, g2) \<Rightarrow>
             (case execute_trade self1 opportunity now of
                Inl e \<Rightarrow> Inl e
              | Inr (self2, trade) \<Rightarrow> Inr (self2, trade, g2)))"

text \<open>
  The loop of \<^verbatim>\<open>run\<close> over the timestamps of the iterations still to run
  (one for each iteration).
\<close>

fun run_loop ::
  "ArbitrageBot \<Rightarrow> real \<Rightarrow> string list \<Rightarrow> rng \<Rightarrow> error + (ArbitrageBot \<times> rng)" where
  "run_loop self min_profit [] g = Inr (self, g)"
| "run_loop self min_profit (now # clock) g =
     (case run_iteration self min_profit now g of
        Inl e \<Rightarrow> Inl e
      | Inr (self1, trade, g1) \<Rightarrow> run_loop self1 min_profit clock g1)"

section \<open>Notions used in the statements\<close>

text \<open>
  The quotes that one scan of a coin asks for, in the order of the exchange
  list: the exchange's name, its quoted price and the exchange. Each call of
  \<^verbatim>\<open>get_price\<close> takes the next draw.
\<close>

fun quoted :: "Exchange list \<Rightarrow> string \<Rightarrow> real \<Rightarrow> rng \<Rightarrow> price_dict" where
  "quoted [] coin base_price g = []"
| "quoted (ex # rest) coin base_price g =
     (name ex, fst (get_price ex coin base_price g), ex)
       # quoted rest coin base_price (snd (get_price ex coin base_price g))"

text \<open>The price of an entry of the dictionary \<^verbatim>\<open>prices\<close>.\<close>

definition price_of :: "string \<times> real \<times> Exchange \<Rightarrow> real" where
  "price_of e = fst (snd e)"

text \<open>The price that exchange number \<open>i\<close> of the list quotes in that scan.\<close>

definition quote_at :: "Exchange list \<Rightarrow> string \<Rightarrow> real \<Rightarrow> rng \<Rightarrow> nat \<Rightarrow> real" where
  "quote_at exs coin base_price g i = fst (get_price (exs ! i) coin base_price (sdrop i g))"



text \<open>
  The candidates of lines 86-115, one for each coin of the list, in scan
  order, with the generator as the scan leaves it; the first exception ends
  the scan.
\<close>

fun candidates ::
  "ArbitrageBot \<Rightarrow> string list \<Rightarrow> rng \<Rightarrow> error + (opportunity list \<times> rng)" where
  "candidates self [] g = Inr ([], g)"
| "candidates self (coin # rest) g =
     (case dict_get (base_prices self) coin of
        Inl e \<Rightarrow> Inl e
      | Inr base_price \<Rightarrow>
          (case scan_coin (exchanges self) coin base_price g of
             Inl e \<Rightarrow> Inl e
           | Inr (opp, g') \<Rightarrow>
               (case candidates self rest g' of
                  Inl e \<Rightarrow> Inl e
                | Inr (opps, g'') \<Rightarrow> Inr (opp # opps, g''))))"

text \<open>
  The update of \<^verbatim>\<open>best_opportunity\<close> and \<^verbatim>\<open>best_profit_pct\<close> (lines
  118-124) along a list of candidates.
\<close>

fun track :: "real \<Rightarrow> opportunity list \<Rightarrow> opportunity option \<Rightarrow> real \<Rightarrow> opportunity option" where
  "track thr [] best b = best"
| "track thr (x # rest) best b =
     (if profit_pct_of x > b \<and> profit_pct_of x \<ge> thr
      then track thr rest (Some x) (profit_pct_of x)
      else track thr rest best b)"

section \<open>Construction\<close>

text \<open>
  Claim C2 says that construction raises on a negative fee rate, a negative
  price variation or a capital that is not positive. The constructors accept
  all three: the values are stored as they are given.
\<close>

theorem construction_accepts_counterexample:
  "Exchange_init ''Binance'' (- 1) (- 2)
     = \<lparr>name = ''Binance'', trading_fee = - 1, price_variation = - 2\<rparr>
   \<and> capital (ArbitrageBot_init (- 5)) = - 5
   \<and> capital (ArbitrageBot_init 0) = 0"
  by (simp add: Exchange_init_def ArbitrageBot_init_def)

text \<open>
  Claim C2, amended. Construction never fails and never changes a value: an
  \<^verbatim>\<open>Exchange\<close> holds the name, the fee rate and the price variation it is
  given, whatever their sign, and an \<^verbatim>\<open>ArbitrageBot\<close> holds the initial
  capital it is given, whatever its sign, with the four exchanges and the
  eight assets of the constructor (neither list is a parameter, so neither
  can be passed empty), an empty history and counters at zero.
\<close>

theorem construction_total:
  "name (Exchange_init n fee var) = n
   \<and> trading_fee (Exchange_init n fee var) = fee
   \<and> price_variation (Exchange_init n fee var) = var
   \<and> capital (ArbitrageBot_init c) = c
   \<and> map name (exchanges (ArbitrageBot_init c)) = [''Binance'', ''Coinbase'', ''Kraken'', ''Bybit'']
   \<and> map trading_fee (exchanges (ArbitrageBot_init c)) = [0.1, 0.5, 0.26, 0.1]
   \<and> map price_variation (exchanges (ArbitrageBot_init c)) = [0.015, 0.02, 0.018, 0.012]
   \<and> base_prices (ArbitrageBot_init c)
       = [(''BTC'', 45000), (''ETH'', 2500), (''BNB'', 320), (''SOL'', 100),
          (''ADA'', 0.5), (''XRP'', 0.6), (''DOGE'', 0.08), (''MATIC'', 0.85)]
   \<and> coins (ArbitrageBot_init c)
       = [''BTC'', ''ETH'', ''BNB'', ''SOL'', ''ADA'', ''XRP'', ''DOGE'', ''MATIC'']
   \<and> trades (ArbitrageBot_init c) = [] \<and> total_profit (ArbitrageBot_init c) = 0
   \<and> successful_trades (ArbitrageBot_init c) = 0 \<and> failed_trades (ArbitrageBot_init c) = 0"
  by (simp add: Exchange_init_def ArbitrageBot_init_def)

section \<open>The dictionary of quotes\<close>

lemma dict_set_keys:
  "map fst (dict_set d k v) = (if k \<in> fst ` set d then map fst d else map fst d @ [k])"
  by (induction d) (force+)

lemma dict_set_key_set: "fst ` set (dict_set d k v) = insert k (fst ` set d)"
proof -
  have "set (map fst (dict_set d k v)) = insert k (set (map fst d))"
    by (simp only: dict_set_keys) auto
  then show ?thesis by simp
qed

lemma dict_set_fresh: "k \<notin> fst ` set d \<Longrightarrow> dict_set d k v = d @ [(k, v)]"
  by (induction d) auto

lemma map_of_dict_set: "map_of (dict_set d k v) = (map_of d)(k \<mapsto> v)"
  by (induction d) (auto simp: fun_eq_iff)

lemma distinct_dict_set: "distinct (map fst d) \<Longrightarrow> distinct (map fst (dict_set d k v))"
  by (simp add: dict_set_keys)

lemma snd_get_price: "snd (get_price ex coin bp g) = stl g"
  by (simp add: get_price_def uniform_def)

lemma collect_prices_rng: "snd (collect_prices exs coin bp d g) = sdrop (length exs) g"
  by (induction exs arbitrary: d g) (auto simp: split_beta snd_get_price)

lemma collect_prices_append:
  "collect_prices (xs @ ys) coin bp d g =
     collect_prices ys coin bp (fst (collect_prices xs coin bp d g)) (sdrop (length xs) g)"
  by (induction xs arbitrary: d g) (auto simp: split_beta snd_get_price)

lemma collect_prices_distinct_keys:
  "distinct (map fst d) \<Longrightarrow> distinct (map fst (fst (collect_prices exs coin bp d g)))"
  by (induction exs arbitrary: d g) (auto simp: split_beta distinct_dict_set)

lemma collect_prices_keys:
  "fst ` set (fst (collect_prices exs coin bp d g)) = fst ` set d \<union> name ` set exs"
  by (induction exs arbitrary: d g) (simp_all add: split_beta dict_set_key_set)

lemma collect_prices_other:
  "n \<notin> name ` set exs \<Longrightarrow> map_of (fst (collect_prices exs coin bp d g)) n = map_of d n"
  by (induction exs arbitrary: d g) (auto simp: split_beta map_of_dict_set)

lemma collect_prices_fresh:
  "distinct (map name exs) \<Longrightarrow> name ` set exs \<inter> fst ` set d = {} \<Longrightarrow>
   fst (collect_prices exs coin bp d g) = d @ quoted exs coin bp g"
proof (induction exs arbitrary: d g)
  case Nil
  then show ?case by simp
next
  case (Cons ex rest)
  have fresh: "name ex \<notin> fst ` set d" using Cons.prems by auto
  let ?p = "fst (get_price ex coin bp g)"
  let ?d = "d @ [(name ex, ?p, ex)]"
  have "name ` set rest \<inter> fst ` set ?d = {}" using Cons.prems by auto
  with Cons.IH [of ?d "snd (get_price ex coin bp g)"] Cons.prems
  show ?case by (simp add: split_beta dict_set_fresh [OF fresh])
qed

lemma collect_prices_last_wins:
  assumes "name ex = n" "n \<notin> name ` set post"
  shows "map_of (fst (collect_prices (pre @ ex # post) coin bp d g)) n
           = Some (fst (get_price ex coin bp (sdrop (length pre) g)), ex)"
  using assms by (simp add: collect_prices_append split_beta collect_prices_other map_of_dict_set)

lemma filter_key_single:
  "distinct (map fst d) \<Longrightarrow> map_of d k = Some v \<Longrightarrow> filter (\<lambda>e. fst e = k) d = [(k, v)]"
proof (induction d)
  case Nil
  then show ?case by simp
next
  case (Cons a d)
  show ?case
  proof (cases "fst a = k")
    case True
    then have "k \<notin> set (map fst d)" using Cons.prems(1) by simp
    then have "\<forall>e\<in>set d. fst e \<noteq> k" by auto
    then have "filter (\<lambda>e. fst e = k) d = []" by (simp add: filter_empty_conv)
    with True Cons.prems(2) show ?thesis by (cases a) auto
  next
    case False
    with Cons show ?thesis by (cases a) auto
  qed
qed

lemma dict_set_subset: "set (dict_set d k v) \<subseteq> insert (k, v) (set d)"
  by (induction d) (auto split: if_splits)

lemma collect_prices_subset:
  "set (fst (collect_prices exs coin bp d g)) \<subseteq> set d \<union> set (quoted exs coin bp g)"
proof (induction exs arbitrary: d g)
  case Nil
  then show ?case by simp
next
  case (Cons ex rest)
  let ?d = "dict_set d (name ex) (fst (get_price ex coin bp g), ex)"
  have "set (fst (collect_prices rest coin bp ?d (snd (get_price ex coin bp g))))
      \<subseteq> set ?d \<union> set (quoted rest coin bp (snd (get_price ex coin bp g)))"
    by (rule Cons.IH)
  moreover have "set ?d \<subseteq> insert (name ex, fst (get_price ex coin bp g), ex) (set d)"
    by (rule dict_set_subset)
  ultimately show ?case by (auto simp: split_beta)
qed

section \<open>The stable sort: first and last element\<close>

lemma hd_sort_key_le:
  assumes "xs \<noteq> []" "y \<in> set xs"
  shows "f (hd (sort_key f xs)) \<le> f y"
proof -
  let ?ys = "sort_key f xs"
  have ne: "?ys \<noteq> []" using assms(1) by (metis length_sort length_0_conv)
  then obtain z zs where ys: "?ys = z # zs" by (cases ?ys) auto
  have "sorted (map f ?ys)" by (rule sorted_sort_key)
  moreover have "y \<in> set ?ys" using assms(2) by simp
  ultimately show ?thesis unfolding ys by auto
qed

lemma last_sort_key_ge:
  assumes "xs \<noteq> []" "y \<in> set xs"
  shows "f y \<le> f (last (sort_key f xs))"
proof -
  let ?ys = "sort_key f xs"
  have ne: "?ys \<noteq> []" using assms(1) by (metis length_sort length_0_conv)
  then obtain zs z where ys: "?ys = zs @ [z]" by (cases ?ys rule: rev_cases) auto
  have "sorted (map f ?ys)" by (rule sorted_sort_key)
  moreover have "y \<in> set ?ys" using assms(2) by simp
  ultimately show ?thesis unfolding ys by (auto simp: sorted_append)
qed

lemma hd_sort_key_in: "xs \<noteq> [] \<Longrightarrow> hd (sort_key f xs) \<in> set xs"
  by (metis hd_in_set length_0_conv length_sort set_sort)

lemma last_sort_key_in: "xs \<noteq> [] \<Longrightarrow> last (sort_key f xs) \<in> set xs"
  by (metis last_in_set length_0_conv length_sort set_sort)

lemma hd_sort_key_Min:
  fixes f :: "'a \<Rightarrow> real"
  assumes "xs \<noteq> []"
  shows "f (hd (sort_key f xs)) = Min (f ` set xs)"
  using assms by (intro Min_eqI [symmetric]) (auto simp: hd_sort_key_le hd_sort_key_in)

lemma last_sort_key_Max:
  fixes f :: "'a \<Rightarrow> real"
  assumes "xs \<noteq> []"
  shows "f (last (sort_key f xs)) = Max (f ` set xs)"
  using assms by (intro Max_eqI [symmetric]) (auto simp: last_sort_key_ge last_sort_key_in)

lemma hd_filter_hd: "xs \<noteq> [] \<Longrightarrow> P (hd xs) \<Longrightarrow> hd (filter P xs) = hd xs"
  by (cases xs) auto

lemma last_filter_last: "xs \<noteq> [] \<Longrightarrow> P (last xs) \<Longrightarrow> last (filter P xs) = last xs"
  by (cases xs rule: rev_cases) auto

lemma hd_sort_key_first:
  fixes f :: "'a \<Rightarrow> real"
  assumes "xs \<noteq> []"
  shows "hd (sort_key f xs) = hd (filter (\<lambda>y. f y = Min (f ` set xs)) xs)"
proof -
  have ne: "sort_key f xs \<noteq> []" using assms by (metis length_sort length_0_conv)
  have "hd (filter (\<lambda>y. f y = Min (f ` set xs)) (sort_key f xs)) = hd (sort_key f xs)"
    using ne by (rule hd_filter_hd) (rule hd_sort_key_Min [OF assms])
  then show ?thesis by (simp add: sort_key_stable)
qed

lemma last_sort_key_last:
  fixes f :: "'a \<Rightarrow> real"
  assumes "xs \<noteq> []"
  shows "last (sort_key f xs) = last (filter (\<lambda>y. f y = Max (f ` set xs)) xs)"
proof -
  have ne: "sort_key f xs \<noteq> []" using assms by (metis length_sort length_0_conv)
  have "last (filter (\<lambda>y. f y = Max (f ` set xs)) (sort_key f xs)) = last (sort_key f xs)"
    using ne by (rule last_filter_last) (rule last_sort_key_Max [OF assms])
  then show ?thesis by (simp add: sort_key_stable)
qed

lemma hd_filter_index:
  assumes "filter P xs \<noteq> []"
  shows "\<exists>i<length xs. hd (filter P xs) = xs ! i \<and> P (xs ! i) \<and> (\<forall>j<i. \<not> P (xs ! j))"
  using assms
proof (induction xs)
  case Nil
  then show ?case by simp
next
  case (Cons x xs)
  show ?case
  proof (cases "P x")
    case True
    then show ?thesis by (intro exI [of _ 0]) simp
  next
    case False
    with Cons obtain i where i: "i < length xs" "hd (filter P xs) = xs ! i" "P (xs ! i)"
      "\<forall>j<i. \<not> P (xs ! j)" by auto
    show ?thesis
    proof (intro exI [of _ "Suc i"] conjI allI impI)
      fix j assume "j < Suc i"
      then show "\<not> P ((x # xs) ! j)" using False i(4) by (cases j) auto
    qed (use False i in auto)
  qed
qed

lemma last_filter_index:
  assumes "filter P xs \<noteq> []"
  shows "\<exists>i<length xs. last (filter P xs) = xs ! i \<and> P (xs ! i)
           \<and> (\<forall>j. i < j \<and> j < length xs \<longrightarrow> \<not> P (xs ! j))"
proof -
  have ne: "filter P (rev xs) \<noteq> []" using assms by (simp add: filter_empty_conv)
  from hd_filter_index [OF ne] obtain i where i: "i < length xs"
    "hd (filter P (rev xs)) = rev xs ! i" "P (rev xs ! i)" "\<forall>j<i. \<not> P (rev xs ! j)"
    by auto
  let ?k = "length xs - Suc i"
  have k: "?k < length xs" using i(1) by simp
  have eq: "rev xs ! i = xs ! ?k" using i(1) by (simp add: rev_nth)
  have "last (filter P xs) = hd (rev (filter P xs))" using assms by (simp add: hd_rev)
  also have "\<dots> = hd (filter P (rev xs))" by (simp add: rev_filter)
  finally have l: "last (filter P xs) = xs ! ?k" using i(2) eq by simp
  have "\<not> P (xs ! j)" if "?k < j" "j < length xs" for j
  proof -
    have "length xs - Suc j < i" using that i(1) by arith
    then have "\<not> P (rev xs ! (length xs - Suc j))" using i(4) by blast
    moreover have "rev xs ! (length xs - Suc j) = xs ! j" using that by (simp add: rev_nth)
    ultimately show ?thesis by simp
  qed
  with k l i(3) eq show ?thesis by (intro exI [of _ ?k]) auto
qed

section \<open>The candidate of one coin\<close>

lemma length_quoted: "length (quoted exs coin bp g) = length exs"
  by (induction exs arbitrary: g) auto

lemma quoted_nth:
  "i < length exs \<Longrightarrow>
   quoted exs coin bp g ! i = (name (exs ! i), quote_at exs coin bp g i, exs ! i)"
proof (induction exs arbitrary: g i)
  case Nil
  then show ?case by simp
next
  case (Cons ex rest)
  show ?case
  proof (cases i)
    case 0
    then show ?thesis by (simp add: quote_at_def)
  next
    case (Suc k)
    with Cons.prems have "k < length rest" by simp
    from Cons.IH [OF this, of "stl g"] Suc show ?thesis
      by (simp add: quote_at_def snd_get_price)
  qed
qed

lemma evaluate_coin_Inr:
  assumes "evaluate_coin coin prices = Inr (c, be, se, buy, sell, pct, bf, sf)"
  shows "prices \<noteq> []"
    and "c = coin"
    and "\<exists>k. (k, buy, be) = hd (filter (\<lambda>e. price_of e = Min (price_of ` set prices)) prices)"
    and "\<exists>k. (k, sell, se) = last (filter (\<lambda>e. price_of e = Max (price_of ` set prices)) prices)"
    and "buy = Min (price_of ` set prices)"
    and "sell = Max (price_of ` set prices)"
    and "bf = calculate_fee be buy"
    and "sf = calculate_fee se sell"
    and "buy + bf \<noteq> 0"
    and "pct = ((sell - sf) - (buy + bf)) / (buy + bf) * 100"
proof -
  let ?f = "\<lambda>x::string \<times> real \<times> Exchange. fst (snd x)"
  let ?s = "sort_key ?f prices"
  have pf: "price_of = ?f" by (simp add: price_of_def fun_eq_iff)
  have s_ne: "?s \<noteq> []" using assms by (auto simp: evaluate_coin_def Let_def)
  then show ne: "prices \<noteq> []" by auto
  from assms s_ne have
    be: "be = snd (snd (hd ?s))" and se: "se = snd (snd (last ?s))"
    and buy: "buy = fst (snd (hd ?s))" and sell: "sell = fst (snd (last ?s))"
    and rest: "c = coin" "bf = calculate_fee be buy" "sf = calculate_fee se sell"
      "buy + bf \<noteq> 0" "pct = ((sell - sf) - (buy + bf)) / (buy + bf) * 100"
    by (auto simp: evaluate_coin_def Let_def truediv_def split: if_splits)
  from rest show "c = coin" "bf = calculate_fee be buy" "sf = calculate_fee se sell"
      "buy + bf \<noteq> 0" "pct = ((sell - sf) - (buy + bf)) / (buy + bf) * 100" by auto
  have "(fst (hd ?s), buy, be) = hd ?s" by (simp add: be buy)
  also have "\<dots> = hd (filter (\<lambda>e. price_of e = Min (price_of ` set prices)) prices)"
    unfolding pf by (rule hd_sort_key_first [OF ne])
  finally show "\<exists>k. (k, buy, be) = hd (filter (\<lambda>e. price_of e = Min (price_of ` set prices)) prices)" ..
  have "(fst (last ?s), sell, se) = last ?s" by (simp add: se sell)
  also have "\<dots> = last (filter (\<lambda>e. price_of e = Max (price_of ` set prices)) prices)"
    unfolding pf by (rule last_sort_key_last [OF ne])
  finally show "\<exists>k. (k, sell, se) = last (filter (\<lambda>e. price_of e = Max (price_of ` set prices)) prices)" ..
  show "buy = Min (price_of ` set prices)"
    unfolding buy pf by (rule hd_sort_key_Min [OF ne])
  show "sell = Max (price_of ` set prices)"
    unfolding sell pf by (rule last_sort_key_Max [OF ne])
qed

lemma scan_coin_Inr:
  assumes "scan_coin exs coin bp g = Inr (opp, g')"
  shows "evaluate_coin coin (fst (collect_prices exs coin bp [] g)) = Inr opp"
    and "g' = sdrop (length exs) g"
  using assms collect_prices_rng [of exs coin bp "[]" g]
  by (auto simp: scan_coin_def split_beta split: sum.splits)

lemma scan_coin_distinct:
  assumes "distinct (map name exs)"
    and "scan_coin exs coin bp g = Inr (opp, g')"
  shows "evaluate_coin coin (quoted exs coin bp g) = Inr opp"
  using scan_coin_Inr(1) [OF assms(2)] collect_prices_fresh [OF assms(1), of "[]" coin bp g]
  by simp

section \<open>Ties between exchanges\<close>

lemma quoted_keys: "map fst (quoted exs coin bp g) = map name exs"
  by (induction exs arbitrary: g) auto

lemma min_price_attained:
  "prices \<noteq> [] \<Longrightarrow> filter (\<lambda>e. price_of e = Min (price_of ` set prices)) prices \<noteq> []"
proof -
  assume "prices \<noteq> []"
  then have "Min (price_of ` set prices) \<in> price_of ` set prices" by (intro Min_in) auto
  then show ?thesis by (auto simp: filter_empty_conv)
qed

lemma max_price_attained:
  "prices \<noteq> [] \<Longrightarrow> filter (\<lambda>e. price_of e = Max (price_of ` set prices)) prices \<noteq> []"
proof -
  assume "prices \<noteq> []"
  then have "Max (price_of ` set prices) \<in> price_of ` set prices" by (intro Max_in) auto
  then show ?thesis by (auto simp: filter_empty_conv)
qed

lemma price_of_quoted_nth:
  "i < length exs \<Longrightarrow> price_of (quoted exs coin bp g ! i) = quote_at exs coin bp g i"
  by (simp add: quoted_nth price_of_def)

lemma quote_at_in:
  assumes "j < length exs"
  shows "quote_at exs coin bp g j \<in> price_of ` set (quoted exs coin bp g)"
proof -
  have "quoted exs coin bp g ! j \<in> set (quoted exs coin bp g)"
    using assms by (simp add: length_quoted)
  then have "price_of (quoted exs coin bp g ! j) \<in> price_of ` set (quoted exs coin bp g)"
    by (rule imageI)
  then show ?thesis using assms by (simp add: price_of_quoted_nth)
qed

text \<open>
  Claim C3 says that the first-listed exchange wins a tie for the maximum as
  well as for the minimum. With the four exchanges of the constructor and
  draws that make all four quote 45000 for BTC, the scanner buys at Binance,
  the first of the list, and sells at Bybit, the last.
\<close>

theorem tie_break_sell_counterexample:
  "map price_of (quoted (exchanges (ArbitrageBot_init 10000)) ''BTC'' 45000 (sconst (1/2)))
     = [45000, 45000, 45000, 45000]
   \<and> scan_coin (exchanges (ArbitrageBot_init 10000)) ''BTC'' 45000 (sconst (1/2))
     = Inr ((''BTC'', Exchange_init ''Binance'' 0.1 0.015, Exchange_init ''Bybit'' 0.1 0.012,
             45000, 45000, - (200 / 1001), 45, 45), sconst (1/2))
   \<and> hd (exchanges (ArbitrageBot_init 10000)) = Exchange_init ''Binance'' 0.1 0.015
   \<and> Exchange_init ''Bybit'' 0.1 0.012 \<noteq> Exchange_init ''Binance'' 0.1 0.015"
  by (simp add: scan_coin_def ArbitrageBot_init_def Exchange_init_def get_price_def uniform_def
      evaluate_coin_def truediv_def calculate_fee_def Let_def price_of_def)

text \<open>
  Claim C3, amended. When the exchanges have distinct names and the scanner
  reaches a candidate for the coin, the buy exchange is the first exchange of
  the configured list whose quote is the minimum (every exchange before it
  quotes strictly more), and the sell exchange is the last exchange of the
  list whose quote is the maximum (every exchange after it quotes strictly
  less): the sort is stable, and the sell side is read from its end.
\<close>

theorem tie_break_first_min_last_max:
  assumes "distinct (map name exs)"
    and "scan_coin exs coin base_price g = Inr ((c, be, se, buy, sell, pct, bf, sf), g')"
  shows "(\<exists>i<length exs. be = exs ! i \<and> buy = quote_at exs coin base_price g i
            \<and> (\<forall>j<length exs. buy \<le> quote_at exs coin base_price g j)
            \<and> (\<forall>j<i. buy < quote_at exs coin base_price g j))
       \<and> (\<exists>i<length exs. se = exs ! i \<and> sell = quote_at exs coin base_price g i
            \<and> (\<forall>j<length exs. quote_at exs coin base_price g j \<le> sell)
            \<and> (\<forall>j. i < j \<and> j < length exs \<longrightarrow> quote_at exs coin base_price g j < sell))"
proof -
  let ?q = "quoted exs coin base_price g"
  let ?qa = "quote_at exs coin base_price g"
  note ev = evaluate_coin_Inr [OF scan_coin_distinct [OF assms]]
  have len: "length ?q = length exs" by (rule length_quoted)
  have lo: "buy \<le> ?qa j" if "j < length exs" for j
  proof -
    have "?qa j \<in> price_of ` set ?q" using that by (rule quote_at_in)
    then show ?thesis unfolding ev(5) by (intro Min_le) auto
  qed
  have hi: "?qa j \<le> sell" if "j < length exs" for j
  proof -
    have "?qa j \<in> price_of ` set ?q" using that by (rule quote_at_in)
    then show ?thesis unfolding ev(6) by (intro Max_ge) auto
  qed
  from ev(3) obtain kb where kb:
    "(kb, buy, be) = hd (filter (\<lambda>e. price_of e = Min (price_of ` set ?q)) ?q)" ..
  from hd_filter_index [OF min_price_attained [OF ev(1)]] obtain i where i:
    "i < length exs" "(kb, buy, be) = ?q ! i"
    "\<forall>j<i. price_of (?q ! j) \<noteq> Min (price_of ` set ?q)"
    unfolding kb len by blast
  have "buy < ?qa j" if "j < i" for j
  proof -
    have jl: "j < length exs" using that i(1) by simp
    have "price_of (?q ! j) \<noteq> Min (price_of ` set ?q)" using i(3) that by blast
    then have "?qa j \<noteq> buy" using ev(5) jl by (simp add: price_of_quoted_nth)
    then show ?thesis using lo [OF jl] by simp
  qed
  then have bi: "\<forall>j<i. buy < ?qa j" by blast
  have "be = exs ! i" "buy = ?qa i" using i(1,2) by (simp_all add: quoted_nth)
  with i(1) lo bi have first: "\<exists>i<length exs. be = exs ! i \<and> buy = ?qa i
      \<and> (\<forall>j<length exs. buy \<le> ?qa j) \<and> (\<forall>j<i. buy < ?qa j)"
    by blast
  from ev(4) obtain ks where ks:
    "(ks, sell, se) = last (filter (\<lambda>e. price_of e = Max (price_of ` set ?q)) ?q)" ..
  from last_filter_index [OF max_price_attained [OF ev(1)]] obtain k where k:
    "k < length exs" "(ks, sell, se) = ?q ! k"
    "\<forall>j. k < j \<and> j < length exs \<longrightarrow> price_of (?q ! j) \<noteq> Max (price_of ` set ?q)"
    unfolding ks len by blast
  have "?qa j < sell" if "k < j" "j < length exs" for j
  proof -
    have "price_of (?q ! j) \<noteq> Max (price_of ` set ?q)" using k(3) that by blast
    then have "?qa j \<noteq> sell" using ev(6) that(2) by (simp add: price_of_quoted_nth)
    then show ?thesis using hi [OF that(2)] by simp
  qed
  then have sk: "\<forall>j. k < j \<and> j < length exs \<longrightarrow> ?qa j < sell" by blast
  have "se = exs ! k" "sell = ?qa k" using k(1,2) by (simp_all add: quoted_nth)
  with k(1) hi sk have "\<exists>i<length exs. se = exs ! i \<and> sell = ?qa i
      \<and> (\<forall>j<length exs. ?qa j \<le> sell) \<and> (\<forall>j. i < j \<and> j < length exs \<longrightarrow> ?qa j < sell)"
    by blast
  with first show ?thesis by simp
qed

theorem tie_break_first_min_last_max_witness:
  "distinct (map name (exchanges (ArbitrageBot_init 10000)))
   \<and> scan_coin (exchanges (ArbitrageBot_init 10000)) ''SOL'' 100 (sconst (1/2))
     = Inr ((''SOL'', Exchange_init ''Binance'' 0.1 0.015, Exchange_init ''Bybit'' 0.1 0.012,
             100, 100, - (200 / 1001), 0.1, 0.1), sconst (1/2))
   \<and> (\<exists>i<length (exchanges (ArbitrageBot_init 10000)).
         Exchange_init ''Binance'' 0.1 0.015 = exchanges (ArbitrageBot_init 10000) ! i
         \<and> (\<forall>j<i. 100 < quote_at (exchanges (ArbitrageBot_init 10000)) ''SOL'' 100
                            (sconst (1/2)) j))
   \<and> (\<exists>i<length (exchanges (ArbitrageBot_init 10000)).
         Exchange_init ''Bybit'' 0.1 0.012 = exchanges (ArbitrageBot_init 10000) ! i
         \<and> (\<forall>j. i < j \<and> j < length (exchanges (ArbitrageBot_init 10000)) \<longrightarrow>
                quote_at (exchanges (ArbitrageBot_init 10000)) ''SOL'' 100 (sconst (1/2)) j
                  < 100))"
proof -
  have d: "distinct (map name (exchanges (ArbitrageBot_init 10000)))"
    by (simp add: ArbitrageBot_init_def Exchange_init_def)
  have s: "scan_coin (exchanges (ArbitrageBot_init 10000)) ''SOL'' 100 (sconst (1/2))
     = Inr ((''SOL'', Exchange_init ''Binance'' 0.1 0.015, Exchange_init ''Bybit'' 0.1 0.012,
             100, 100, - (200 / 1001), 0.1, 0.1), sconst (1/2))"
    by (simp add: scan_coin_def ArbitrageBot_init_def Exchange_init_def get_price_def
        uniform_def evaluate_coin_def truediv_def calculate_fee_def Let_def)
  from tie_break_first_min_last_max [OF d s] d s show ?thesis by blast
qed

section \<open>Minimum and maximum of the quotes\<close>

lemma hd_filter_mem: "filter P xs \<noteq> [] \<Longrightarrow> hd (filter P xs) \<in> set xs"
  by (metis filter_is_subset hd_in_set subsetD)

lemma last_filter_mem: "filter P xs \<noteq> [] \<Longrightarrow> last (filter P xs) \<in> set xs"
  by (metis filter_is_subset last_in_set subsetD)

lemma evaluate_coin_mem:
  assumes "evaluate_coin coin prices = Inr (c, be, se, buy, sell, pct, bf, sf)"
  shows "\<exists>k. (k, buy, be) \<in> set prices" and "\<exists>k. (k, sell, se) \<in> set prices"
proof -
  note ev = evaluate_coin_Inr [OF assms]
  from ev(3) hd_filter_mem [OF min_price_attained [OF ev(1)]]
  show "\<exists>k. (k, buy, be) \<in> set prices" by metis
  from ev(4) last_filter_mem [OF max_price_attained [OF ev(1)]]
  show "\<exists>k. (k, sell, se) \<in> set prices" by metis
qed

lemma dict_min_max:
  assumes "scan_coin exs coin base_price g = Inr ((c, be, se, buy, sell, pct, bf, sf), g')"
  shows "fst (collect_prices exs coin base_price [] g) \<noteq> []
    \<and> buy = Min (price_of ` set (fst (collect_prices exs coin base_price [] g)))
    \<and> sell = Max (price_of ` set (fst (collect_prices exs coin base_price [] g)))
    \<and> (distinct (map name exs) \<longrightarrow>
         fst (collect_prices exs coin base_price [] g) = quoted exs coin base_price g)
    \<and> (\<forall>prices2 c2 be2 se2 buy2 sell2 pct2 bf2 sf2.
         set prices2 = set (fst (collect_prices exs coin base_price [] g))
         \<and> evaluate_coin coin prices2 = Inr (c2, be2, se2, buy2, sell2, pct2, bf2, sf2)
         \<longrightarrow> buy2 = buy \<and> sell2 = sell
            \<and> (distinct (map price_of (fst (collect_prices exs coin base_price [] g)))
                 \<longrightarrow> (c2, be2, se2, buy2, sell2, pct2, bf2, sf2)
                      = (c, be, se, buy, sell, pct, bf, sf)))"
proof -
  let ?p = "fst (collect_prices exs coin base_price [] g)"
  have e1: "evaluate_coin coin ?p = Inr (c, be, se, buy, sell, pct, bf, sf)"
    by (rule scan_coin_Inr(1) [OF assms])
  note ev = evaluate_coin_Inr [OF e1]
  note mem = evaluate_coin_mem [OF e1]
  have d: "distinct (map name exs) \<longrightarrow> ?p = quoted exs coin base_price g"
    using collect_prices_fresh [of exs "[]" coin base_price g] by simp
  have perm: "buy2 = buy \<and> sell2 = sell
            \<and> (distinct (map price_of ?p)
                 \<longrightarrow> (c2, be2, se2, buy2, sell2, pct2, bf2, sf2)
                      = (c, be, se, buy, sell, pct, bf, sf))"
    if s: "set prices2 = set ?p"
      and e2: "evaluate_coin coin prices2 = Inr (c2, be2, se2, buy2, sell2, pct2, bf2, sf2)"
    for prices2 c2 be2 se2 buy2 sell2 pct2 bf2 sf2
  proof -
    note ev2 = evaluate_coin_Inr [OF e2]
    note mem2 = evaluate_coin_mem [OF e2]
    have b: "buy2 = buy" using ev2(5) ev(5) s by simp
    have sl: "sell2 = sell" using ev2(6) ev(6) s by simp
    have "be2 = be \<and> se2 = se" if nt: "distinct (map price_of ?p)"
    proof -
      have inj: "inj_on price_of (set ?p)" using nt by (simp add: distinct_map)
      from mem(1) obtain k where k: "(k, buy, be) \<in> set ?p" ..
      from mem2(1) s b obtain k2 where k2: "(k2, buy, be2) \<in> set ?p" by auto
      have "price_of (k, buy, be) = price_of (k2, buy, be2)" by (simp add: price_of_def)
      from inj_onD [OF inj this k k2] have "(k, buy, be) = (k2, buy, be2)" .
      moreover
      from mem(2) obtain l where l: "(l, sell, se) \<in> set ?p" ..
      from mem2(2) s sl obtain l2 where l2: "(l2, sell, se2) \<in> set ?p" by auto
      have "price_of (l, sell, se) = price_of (l2, sell, se2)" by (simp add: price_of_def)
      from inj_onD [OF inj this l l2] have "(l, sell, se) = (l2, sell, se2)" .
      ultimately show ?thesis by simp
    qed
    with b sl ev(2,7,8,10) ev2(2,7,8,10) show ?thesis by simp
  qed
  from ev(1) ev(5) ev(6) d perm show ?thesis by blast
qed

text \<open>
  Claim C6 says that the buy price is the minimum of the quoted prices for
  every set of quotes, whatever the order of the exchange list. The quotes
  are stored under the exchange's name: with two exchanges named Binance
  quoting 98.5 and 102 and Kraken quoting 100, the earlier quote is
  overwritten and the scanner buys at 100, not at the minimum 98.5; with the
  two Binance exchanges in the other order and the same quote from each, it
  buys at 98.5, although no two prices are equal.
\<close>

theorem duplicate_names_hide_minimum_counterexample:
  "map price_of (quoted [Exchange_init ''Binance'' 0.1 0.015, Exchange_init ''Binance'' 0.5 0.02,
                         Exchange_init ''Kraken'' 0.26 0.018] ''SOL'' 100
                  (0 ## 1 ## sconst (1/2)))
     = [98.5, 102, 100]
   \<and> scan_coin [Exchange_init ''Binance'' 0.1 0.015, Exchange_init ''Binance'' 0.5 0.02,
                 Exchange_init ''Kraken'' 0.26 0.018] ''SOL'' 100 (0 ## 1 ## sconst (1/2))
     = Inr ((''SOL'', Exchange_init ''Kraken'' 0.26 0.018, Exchange_init ''Binance'' 0.5 0.02,
             100, 102, 2050 / 1671, 0.26, 0.51), sconst (1/2))
   \<and> map price_of (quoted [Exchange_init ''Binance'' 0.5 0.02, Exchange_init ''Binance'' 0.1 0.015,
                         Exchange_init ''Kraken'' 0.26 0.018] ''SOL'' 100
                  (1 ## 0 ## sconst (1/2)))
     = [102, 98.5, 100]
   \<and> scan_coin [Exchange_init ''Binance'' 0.5 0.02, Exchange_init ''Binance'' 0.1 0.015,
                 Exchange_init ''Kraken'' 0.26 0.018] ''SOL'' 100 (1 ## 0 ## sconst (1/2))
     = Inr ((''SOL'', Exchange_init ''Binance'' 0.1 0.015, Exchange_init ''Kraken'' 0.26 0.018,
             98.5, 100, 228300 / 197197, 0.0985, 0.26), sconst (1/2))"
  by (simp add: scan_coin_def Exchange_init_def get_price_def uniform_def
      evaluate_coin_def truediv_def calculate_fee_def Let_def price_of_def)

text \<open>
  Claim C6, amended. When the exchanges have distinct names and the scanner
  reaches a candidate for a coin, the buy price is the minimum of the quoted
  prices and the sell price is their maximum. The two prices do not depend
  on the order of the exchange list: every list of exchanges with distinct
  names that gives the same quotes yields the same buy and sell price, and,
  when no two quotes have the same price, the same candidate.
\<close>

theorem scanner_min_max:
  assumes "distinct (map name exs)"
    and "scan_coin exs coin base_price g = Inr ((c, be, se, buy, sell, pct, bf, sf), g')"
  shows "quoted exs coin base_price g \<noteq> []
    \<and> buy = Min (price_of ` set (quoted exs coin base_price g))
    \<and> sell = Max (price_of ` set (quoted exs coin base_price g))
    \<and> (\<forall>exs2 g2 c2 be2 se2 buy2 sell2 pct2 bf2 sf2 g2'.
         distinct (map name exs2)
         \<and> set (quoted exs2 coin base_price g2) = set (quoted exs coin base_price g)
         \<and> scan_coin exs2 coin base_price g2
             = Inr ((c2, be2, se2, buy2, sell2, pct2, bf2, sf2), g2')
         \<longrightarrow> buy2 = buy \<and> sell2 = sell
            \<and> (distinct (map price_of (quoted exs coin base_price g))
                 \<longrightarrow> (c2, be2, se2, buy2, sell2, pct2, bf2, sf2)
                      = (c, be, se, buy, sell, pct, bf, sf)))"
proof -
  let ?q = "quoted exs coin base_price g"
  have p: "fst (collect_prices exs coin base_price [] g) = ?q"
    using collect_prices_fresh [OF assms(1), of "[]" coin base_price g] by simp
  note d = dict_min_max [OF assms(2), unfolded p]
  have perm: "buy2 = buy \<and> sell2 = sell
            \<and> (distinct (map price_of ?q)
                 \<longrightarrow> (c2, be2, se2, buy2, sell2, pct2, bf2, sf2)
                      = (c, be, se, buy, sell, pct, bf, sf))"
    if d2: "distinct (map name exs2)"
      and s: "set (quoted exs2 coin base_price g2) = set ?q"
      and e2: "scan_coin exs2 coin base_price g2
                 = Inr ((c2, be2, se2, buy2, sell2, pct2, bf2, sf2), g2')"
    for exs2 g2 c2 be2 se2 buy2 sell2 pct2 bf2 sf2 g2'
  proof -
    have "evaluate_coin coin (quoted exs2 coin base_price g2)
        = Inr (c2, be2, se2, buy2, sell2, pct2, bf2, sf2)"
      by (rule scan_coin_distinct [OF d2 e2])
    with d [THEN conjunct2, THEN conjunct2, THEN conjunct2, THEN conjunct2, rule_format,
        of "quoted exs2 coin base_price g2" c2 be2 se2 buy2 sell2 pct2 bf2 sf2] s
    show ?thesis by blast
  qed
  from d [THEN conjunct1] d [THEN conjunct2, THEN conjunct1]
    d [THEN conjunct2, THEN conjunct2, THEN conjunct1] perm
  show ?thesis by blast
qed

theorem scanner_min_max_witness:
  "distinct (map name (exchanges (ArbitrageBot_init 10000)))
   \<and> scan_coin (exchanges (ArbitrageBot_init 10000)) ''SOL'' 100
       (0 ## 1/2 ## 1/2 ## 1 ## sconst (1/2))
     = Inr ((''SOL'', Exchange_init ''Binance'' 0.1 0.015, Exchange_init ''Bybit'' 0.1 0.012,
             98.5, 101.2, 500060 / 197197, 0.0985, 0.1012), sconst (1/2))
   \<and> quoted (exchanges (ArbitrageBot_init 10000)) ''SOL'' 100
          (0 ## 1/2 ## 1/2 ## 1 ## sconst (1/2))
     = [(''Binance'', 98.5, Exchange_init ''Binance'' 0.1 0.015),
        (''Coinbase'', 100, Exchange_init ''Coinbase'' 0.5 0.02),
        (''Kraken'', 100, Exchange_init ''Kraken'' 0.26 0.018),
        (''Bybit'', 101.2, Exchange_init ''Bybit'' 0.1 0.012)]
   \<and> 98.5 = Min (price_of ` set (quoted (exchanges (ArbitrageBot_init 10000))
          ''SOL'' 100 (0 ## 1/2 ## 1/2 ## 1 ## sconst (1/2))))
   \<and> 101.2 = Max (price_of ` set (quoted (exchanges (ArbitrageBot_init 10000))
          ''SOL'' 100 (0 ## 1/2 ## 1/2 ## 1 ## sconst (1/2))))"
proof -
  have d: "distinct (map name (exchanges (ArbitrageBot_init 10000)))"
    by (simp add: ArbitrageBot_init_def Exchange_init_def)
  have s: "scan_coin (exchanges (ArbitrageBot_init 10000)) ''SOL'' 100
       (0 ## 1/2 ## 1/2 ## 1 ## sconst (1/2))
     = Inr ((''SOL'', Exchange_init ''Binance'' 0.1 0.015, Exchange_init ''Bybit'' 0.1 0.012,
             98.5, 101.2, 500060 / 197197, 0.0985, 0.1012), sconst (1/2))"
    by (simp add: scan_coin_def ArbitrageBot_init_def Exchange_init_def get_price_def
        uniform_def evaluate_coin_def truediv_def calculate_fee_def Let_def)
  have q: "quoted (exchanges (ArbitrageBot_init 10000)) ''SOL'' 100
          (0 ## 1/2 ## 1/2 ## 1 ## sconst (1/2))
     = [(''Binance'', 98.5, Exchange_init ''Binance'' 0.1 0.015),
        (''Coinbase'', 100, Exchange_init ''Coinbase'' 0.5 0.02),
        (''Kraken'', 100, Exchange_init ''Kraken'' 0.26 0.018),
        (''Bybit'', 101.2, Exchange_init ''Bybit'' 0.1 0.012)]"
    by (simp add: ArbitrageBot_init_def Exchange_init_def get_price_def uniform_def)
  note t = scanner_min_max [OF d s]
  show ?thesis
    by (intro conjI)
      (rule d, rule s, rule q, rule t [THEN conjunct2, THEN conjunct1],
       rule t [THEN conjunct2, THEN conjunct2, THEN conjunct1])
qed

text \<open>
  Claim C10. The quotes of a coin are stored under the exchange's name. When
  two exchanges of the list have the same name and no later exchange has it,
  the dictionary has exactly one entry under that name, and it holds the
  later exchange with the later exchange's quote; the dictionary has one
  entry for each name, and every entry is one of the quotes asked for, so the
  quote of the earlier exchange is stored nowhere. No exception is raised.
\<close>

theorem duplicate_name_last_wins:
  assumes "exs = pre @ e1 # mid @ e2 # post"
    and "name e1 = name e2"
    and "name e2 \<notin> name ` set post"
  shows "filter (\<lambda>e. fst e = name e2) (fst (collect_prices exs coin base_price [] g))
           = [(name e2, quote_at exs coin base_price g (length pre + 1 + length mid), e2)]
       \<and> distinct (map fst (fst (collect_prices exs coin base_price [] g)))
       \<and> fst ` set (fst (collect_prices exs coin base_price [] g)) = name ` set exs
       \<and> set (fst (collect_prices exs coin base_price [] g))
            \<subseteq> set (quoted exs coin base_price g)"
proof -
  let ?pre = "pre @ e1 # mid"
  have exs: "exs = ?pre @ e2 # post" using assms(1) by simp
  have len: "length ?pre = length pre + 1 + length mid" by simp
  have "exs ! (length ?pre) = e2" unfolding exs by (simp only: nth_append_length)
  then have q: "quote_at exs coin base_price g (length pre + 1 + length mid)
      = fst (get_price e2 coin base_price (sdrop (length ?pre) g))"
    by (simp add: quote_at_def)
  have m: "map_of (fst (collect_prices exs coin base_price [] g)) (name e2)
      = Some (fst (get_price e2 coin base_price (sdrop (length ?pre) g)), e2)"
    unfolding exs by (rule collect_prices_last_wins [OF refl assms(3)])
  have dk: "distinct (map fst (fst (collect_prices exs coin base_price [] g)))"
    by (rule collect_prices_distinct_keys) simp
  have sub: "set (fst (collect_prices exs coin base_price [] g))
      \<subseteq> set (quoted exs coin base_price g)"
    using collect_prices_subset [of exs coin base_price "[]" g] by simp
  from filter_key_single [OF dk m] q dk collect_prices_keys [of exs coin base_price "[]" g] sub
  show ?thesis by simp
qed

theorem duplicate_name_last_wins_witness:
  "[Exchange_init ''Binance'' 0.1 0.015, Exchange_init ''Binance'' 0.5 0.02,
    Exchange_init ''Kraken'' 0.26 0.018]
     = [] @ Exchange_init ''Binance'' 0.1 0.015 # [] @ Exchange_init ''Binance'' 0.5 0.02
         # [Exchange_init ''Kraken'' 0.26 0.018]
   \<and> name (Exchange_init ''Binance'' 0.1 0.015) = name (Exchange_init ''Binance'' 0.5 0.02)
   \<and> name (Exchange_init ''Binance'' 0.5 0.02)
        \<notin> name ` set [Exchange_init ''Kraken'' 0.26 0.018]
   \<and> fst (collect_prices
        [Exchange_init ''Binance'' 0.1 0.015, Exchange_init ''Binance'' 0.5 0.02,
         Exchange_init ''Kraken'' 0.26 0.018] ''SOL'' 100 [] (0 ## 1 ## sconst (1/2)))
      = [(''Binance'', 102, Exchange_init ''Binance'' 0.5 0.02),
         (''Kraken'', 100, Exchange_init ''Kraken'' 0.26 0.018)]
   \<and> filter (\<lambda>e. fst e = ''Binance'')
        (fst (collect_prices
          [Exchange_init ''Binance'' 0.1 0.015, Exchange_init ''Binance'' 0.5 0.02,
           Exchange_init ''Kraken'' 0.26 0.018] ''SOL'' 100 [] (0 ## 1 ## sconst (1/2))))
      = [(''Binance'', 102, Exchange_init ''Binance'' 0.5 0.02)]"
  using duplicate_name_last_wins [of
      "[Exchange_init ''Binance'' 0.1 0.015, Exchange_init ''Binance'' 0.5 0.02,
        Exchange_init ''Kraken'' 0.26 0.018]"
      "[]" "Exchange_init ''Binance'' 0.1 0.015" "[]" "Exchange_init ''Binance'' 0.5 0.02"
      "[Exchange_init ''Kraken'' 0.26 0.018]" "''SOL''" 100 "0 ## 1 ## sconst (1/2)"]
  by (simp add: Exchange_init_def get_price_def uniform_def quote_at_def)

section \<open>Only positive percentages are returned\<close>

lemma scan_coins_positive:
  assumes "scan_coins self thr cs best b g = Inr (Some opp, g')"
    and "0 \<le> b" and "\<forall>x. best = Some x \<longrightarrow> 0 < profit_pct_of x"
  shows "0 < profit_pct_of opp"
  using assms
proof (induction cs arbitrary: best b g)
  case Nil
  then show ?case by simp
next
  case (Cons coin rest)
  from Cons.prems(1) obtain bp where bp: "dict_get (base_prices self) coin = Inr bp"
    by (auto split: sum.splits)
  from Cons.prems(1) bp obtain o1 g1 where
    sc: "scan_coin (exchanges self) coin bp g = Inr (o1, g1)"
    by (auto split: sum.splits)
  show ?case
  proof (cases "profit_pct_of o1 > b \<and> profit_pct_of o1 \<ge> thr")
    case True
    with Cons.prems(1) bp sc
    have "scan_coins self thr rest (Some o1) (profit_pct_of o1) g1 = Inr (Some opp, g')"
      by simp
    moreover have "0 \<le> profit_pct_of o1" "0 < profit_pct_of o1"
      using True Cons.prems(2) by simp_all
    ultimately show ?thesis by (intro Cons.IH [of "Some o1" "profit_pct_of o1" g1]) simp_all
  next
    case False
    with Cons.prems(1) bp sc
    have "scan_coins self thr rest best b g1 = Inr (Some opp, g')" by auto
    then show ?thesis using Cons.prems(2,3) by (rule Cons.IH)
  qed
qed

text \<open>
  Claim C4 says that, the returned profit percentage being above zero, every
  trade on a returned opportunity makes a net profit above zero and the
  capital never decreases. The percentage is a quotient by the net buy
  price, and its sign says nothing of the difference when that price is
  negative: with the exchanges A of fee rate -300 and B of fee rate 500 (the
  constructor of \<^verbatim>\<open>Exchange\<close> accepts both), both quoting the base price,
  the scanner returns BTC with a profit percentage of 100, and the trade on
  it, at a capital of 10000, has the net profit -2000 and leaves the capital
  8000.
\<close>

theorem positive_percentage_loss_counterexample:
  "find_arbitrage_opportunity ((ArbitrageBot_init 10000)\<lparr>exchanges :=
          [Exchange_init ''A'' (- 300) 0, Exchange_init ''B'' 500 0]\<rparr>) 1 (sconst (1/2))
     = Inr (Some (''BTC'', Exchange_init ''A'' (- 300) 0, Exchange_init ''B'' 500 0,
          45000, 45000, 100, - 135000, 225000), sconst (1/2))
   \<and> 0 < profit_pct_of (''BTC'', Exchange_init ''A'' (- 300) 0, Exchange_init ''B'' 500 0,
          45000, 45000, 100, - 135000, 225000)
   \<and> 0 < capital ((ArbitrageBot_init 10000)\<lparr>exchanges :=
          [Exchange_init ''A'' (- 300) 0, Exchange_init ''B'' 500 0]\<rparr>)
   \<and> execute_trade ((ArbitrageBot_init 10000)\<lparr>exchanges :=
          [Exchange_init ''A'' (- 300) 0, Exchange_init ''B'' 500 0]\<rparr>)
        (Some (''BTC'', Exchange_init ''A'' (- 300) 0, Exchange_init ''B'' 500 0,
          45000, 45000, 100, - 135000, 225000)) ''2024-01-01 00:00:00''
     = Inr (((ArbitrageBot_init 10000)\<lparr>exchanges :=
          [Exchange_init ''A'' (- 300) 0, Exchange_init ''B'' 500 0]\<rparr>)\<lparr>capital := 8000, total_profit := - 2000, successful_trades := 1,
          trades := [\<lparr>tr_timestamp = ''2024-01-01 00:00:00'', tr_coin = ''BTC'', tr_quantity = 1 / 45,
            tr_buy_exchange = ''A'', tr_sell_exchange = ''B'',
            tr_buy_price = 45000, tr_sell_price = 45000,
            tr_buy_fee = - 3000, tr_sell_fee = 5000, tr_total_fees = 2000,
            tr_net_profit = - 2000, tr_profit_pct = 100, tr_capital_after = 8000\<rparr>]\<rparr>,
        Some \<lparr>tr_timestamp = ''2024-01-01 00:00:00'', tr_coin = ''BTC'', tr_quantity = 1 / 45,
            tr_buy_exchange = ''A'', tr_sell_exchange = ''B'',
            tr_buy_price = 45000, tr_sell_price = 45000,
            tr_buy_fee = - 3000, tr_sell_fee = 5000, tr_total_fees = 2000,
            tr_net_profit = - 2000, tr_profit_pct = 100, tr_capital_after = 8000\<rparr>)"
  by (simp add: find_arbitrage_opportunity_def dict_get_def scan_coin_def ArbitrageBot_init_def
      Exchange_init_def get_price_def uniform_def evaluate_coin_def truediv_def
      calculate_fee_def Let_def profit_pct_of_def execute_trade_def)

text \<open>
  Claim C4, amended. For every threshold, zero and negative ones included,
  an opportunity that \<^verbatim>\<open>find_arbitrage_opportunity\<close> returns has a profit
  percentage strictly greater than 0: the running best starts at 0 and is
  replaced only by a strictly larger percentage. Nothing is stated of the
  sign of the net profit of the trade.
\<close>

theorem returned_opportunity_positive_percentage:
  assumes "find_arbitrage_opportunity self thr g = Inr (Some opp, g')"
  shows "0 < profit_pct_of opp"
  using assms scan_coins_positive [of self thr "coins self" None 0 g opp g']
  by (simp add: find_arbitrage_opportunity_def)

text \<open>
  Draws for the examples: Binance quotes its lowest price and Bybit its
  highest for the first coin, every later quote is the base price. The bot of
  the constructor then finds BTC, bought at Binance and sold at Bybit, for a
  threshold of -100 as for a threshold of 1.
\<close>

lemma find_example_negative_threshold:
  "find_arbitrage_opportunity (ArbitrageBot_init 10000) (- 100) (0 ## 1/2 ## 1/2 ## 1 ## sconst (1/2))
     = Inr (Some (''BTC'', Exchange_init ''Binance'' 0.1 0.015, Exchange_init ''Bybit'' 0.1 0.012,
          44325, 45540, 45460 / 17927, 44.325, 45.54), sconst (1/2))"
  by (simp add: find_arbitrage_opportunity_def dict_get_def scan_coin_def ArbitrageBot_init_def
      Exchange_init_def get_price_def uniform_def evaluate_coin_def truediv_def
      calculate_fee_def Let_def profit_pct_of_def)

theorem returned_opportunity_positive_percentage_witness:
  "find_arbitrage_opportunity (ArbitrageBot_init 10000) (- 100) (0 ## 1/2 ## 1/2 ## 1 ## sconst (1/2))
     = Inr (Some (''BTC'', Exchange_init ''Binance'' 0.1 0.015, Exchange_init ''Bybit'' 0.1 0.012,
          44325, 45540, 45460 / 17927, 44.325, 45.54), sconst (1/2))
   \<and> 0 < profit_pct_of (''BTC'', Exchange_init ''Binance'' 0.1 0.015, Exchange_init ''Bybit'' 0.1 0.012,
          44325, 45540, 45460 / 17927, 44.325, 45.54)"
  using returned_opportunity_positive_percentage [OF find_example_negative_threshold]
    find_example_negative_threshold
  by (intro conjI)

lemma find_example:
  "find_arbitrage_opportunity (ArbitrageBot_init 10000) 1 (0 ## 1/2 ## 1/2 ## 1 ## sconst (1/2))
     = Inr (Some (''BTC'', Exchange_init ''Binance'' 0.1 0.015, Exchange_init ''Bybit'' 0.1 0.012,
                  44325, 45540, 45460 / 17927, 44.325, 45.54), sconst (1/2))"
  by (simp add: find_arbitrage_opportunity_def dict_get_def scan_coin_def ArbitrageBot_init_def
      Exchange_init_def get_price_def uniform_def evaluate_coin_def truediv_def
      calculate_fee_def Let_def profit_pct_of_def)

section \<open>A single exchange\<close>









section \<open>The best opportunity\<close>

lemma scan_coins_candidates_Inl:
  "candidates self cs g = Inl e \<Longrightarrow> scan_coins self thr cs best b g = Inl e"
proof (induction cs arbitrary: best b g)
  case Nil
  then show ?case by simp
next
  case (Cons coin rest)
  show ?case
  proof (cases "dict_get (base_prices self) coin")
    case (Inl e1)
    with Cons.prems show ?thesis by simp
  next
    case (Inr bp)
    show ?thesis
    proof (cases "scan_coin (exchanges self) coin bp g")
      case (Inl e2)
      with Inr Cons.prems show ?thesis by simp
    next
      case sc: (Inr og)
      obtain x g1 where og: "og = (x, g1)" by (cases og)
      from Cons.prems Inr sc og have "candidates self rest g1 = Inl e"
        by (auto split: sum.splits)
      from Cons.IH [OF this] Inr sc og show ?thesis by simp
    qed
  qed
qed

lemma scan_coins_candidates_Inr:
  "candidates self cs g = Inr (opps, g') \<Longrightarrow>
   scan_coins self thr cs best b g = Inr (track thr opps best b, g')"
proof (induction cs arbitrary: best b g opps)
  case Nil
  then show ?case by auto
next
  case (Cons coin rest)
  from Cons.prems obtain bp where bp: "dict_get (base_prices self) coin = Inr bp"
    by (auto split: sum.splits)
  from Cons.prems bp obtain x g1 where
    sc: "scan_coin (exchanges self) coin bp g = Inr (x, g1)"
    by (auto split: sum.splits)
  from Cons.prems bp sc obtain rest_opps where
    r: "candidates self rest g1 = Inr (rest_opps, g')" "opps = x # rest_opps"
    by (auto split: sum.splits)
  from Cons.IH [OF r(1)] bp sc r(2) show ?case by simp
qed

lemma Max_image_in:
  fixes f :: "'a \<Rightarrow> real"
  shows "xs \<noteq> [] \<Longrightarrow> Max (f ` set xs) \<in> f ` set xs"
  by (rule Max_in) simp_all

lemma Max_image_ge:
  fixes f :: "'a \<Rightarrow> real"
  shows "y \<in> set xs \<Longrightarrow> f y \<le> Max (f ` set xs)"
  by (rule Max_ge) simp_all

lemma find_hit: "P x \<Longrightarrow> find P (x # xs) = Some x"
  by simp

lemma find_skip: "\<not> P x \<Longrightarrow> find P (x # xs) = find P xs"
  by simp

lemma track_char:
  "track thr opps best b =
     (if filter (\<lambda>y. b < profit_pct_of y \<and> thr \<le> profit_pct_of y) opps = [] then best
      else find (\<lambda>y. profit_pct_of y
                  = Max (profit_pct_of `
                      set (filter (\<lambda>y. b < profit_pct_of y \<and> thr \<le> profit_pct_of y) opps)))
             opps)"
proof (induction opps arbitrary: best b)
  case Nil
  show ?case by simp
next
  case (Cons x rest)
  let ?pct = profit_pct_of
  let ?P = "\<lambda>b y. b < ?pct y \<and> thr \<le> ?pct y"
  let ?Q = "filter (?P b) (x # rest)"
  let ?M = "Max (?pct ` set ?Q)"
  show ?case
  proof (cases "?P b x")
    case True
    let ?Q' = "filter (?P (?pct x)) rest"
    let ?M' = "Max (?pct ` set ?Q')"
    have Q: "?Q = x # filter (?P b) rest" using True by simp
    have Qne: "?Q \<noteq> []" unfolding Q by simp
    have xQ: "x \<in> set ?Q" unfolding Q by simp
    have sub: "set ?Q' \<subseteq> set ?Q" unfolding Q using True by auto
    have le: "?pct y \<le> ?pct x" if "y \<in> set ?Q" "y \<notin> set ?Q'" for y
      using that unfolding Q by auto
    have step: "track thr (x # rest) best b = track thr rest (Some x) (?pct x)"
      using True by simp
    note IH = Cons.IH [of "Some x" "?pct x"]
    show ?thesis
    proof (cases "?Q' = []")
      case e: True
      have all: "?pct y \<le> ?pct x" if "y \<in> set ?Q" for y
        using le [OF that] e by simp
      have Meq: "?M = ?pct x"
      proof (rule Max_eqI)
        show "finite (?pct ` set ?Q)" by simp
        show "?pct x \<in> ?pct ` set ?Q" using xQ by (rule imageI)
        fix v assume "v \<in> ?pct ` set ?Q"
        then obtain y where "y \<in> set ?Q" "v = ?pct y" by blast
        then show "v \<le> ?pct x" using all by simp
      qed
      have "track thr (x # rest) best b = track thr rest (Some x) (?pct x)" by (rule step)
      also have "\<dots> = Some x" by (rule trans [OF IH if_P [OF e]])
      also have "Some x = find (\<lambda>y. ?pct y = ?M) (x # rest)"
        by (rule find_hit [symmetric]) (rule Meq [symmetric])
      also have "\<dots> = (if ?Q = [] then best else find (\<lambda>y. ?pct y = ?M) (x # rest))"
        by (rule if_not_P [OF Qne, symmetric])
      finally show ?thesis .
    next
      case ne: False
      have M'in: "?M' \<in> ?pct ` set ?Q'" by (rule Max_image_in [OF ne])
      then have gt: "?pct x < ?M'" by auto
      have Meq: "?M = ?M'"
      proof (rule Max_eqI)
        show "finite (?pct ` set ?Q)" by simp
        show "?M' \<in> ?pct ` set ?Q" using M'in sub by blast
        fix v assume "v \<in> ?pct ` set ?Q"
        then obtain y where y: "y \<in> set ?Q" "v = ?pct y" by blast
        show "v \<le> ?M'"
        proof (cases "y \<in> set ?Q'")
          case True
          then show ?thesis unfolding y(2) by (rule Max_image_ge)
        next
          case False
          from le [OF y(1) this] gt show ?thesis unfolding y(2) by simp
        qed
      qed
      have nx: "\<not> (?pct x = ?M)" unfolding Meq using gt by simp
      have "track thr (x # rest) best b = track thr rest (Some x) (?pct x)" by (rule step)
      also have "\<dots> = find (\<lambda>y. ?pct y = ?M') rest" by (rule trans [OF IH if_not_P [OF ne]])
      also have "\<dots> = find (\<lambda>y. ?pct y = ?M) rest" by (simp only: Meq)
      also have "\<dots> = find (\<lambda>y. ?pct y = ?M) (x # rest)"
        by (rule find_skip [symmetric]) (rule nx)
      also have "\<dots> = (if ?Q = [] then best else find (\<lambda>y. ?pct y = ?M) (x # rest))"
        by (rule if_not_P [OF Qne, symmetric])
      finally show ?thesis .
    qed
  next
    case False
    let ?Qr = "filter (?P b) rest"
    let ?Mr = "Max (?pct ` set ?Qr)"
    have Q: "?Q = ?Qr" using False by simp
    have step: "track thr (x # rest) best b = track thr rest best b"
      using False by auto
    note IH = Cons.IH [of best b]
    show ?thesis
    proof (cases "?Qr = []")
      case e: True
      have Qe: "?Q = []" using Q e by (rule trans)
      have "track thr (x # rest) best b = track thr rest best b" by (rule step)
      also have "\<dots> = best" by (rule trans [OF IH if_P [OF e]])
      also have "best = (if ?Q = [] then best else find (\<lambda>y. ?pct y = ?M) (x # rest))"
        by (rule if_P [OF Qe, symmetric])
      finally show ?thesis .
    next
      case ne: False
      have Qne: "?Q \<noteq> []" using ne unfolding Q .
      have Meq: "?M = ?Mr" by (simp only: Q)
      have "?Mr \<in> ?pct ` set ?Qr" by (rule Max_image_in [OF ne])
      then obtain z where z: "z \<in> set ?Qr" "?Mr = ?pct z" by blast
      then have "?P b z" by simp
      with False z(2) have nx: "\<not> (?pct x = ?Mr)" by auto
      have "track thr (x # rest) best b = track thr rest best b" by (rule step)
      also have "\<dots> = find (\<lambda>y. ?pct y = ?Mr) rest" by (rule trans [OF IH if_not_P [OF ne]])
      also have "\<dots> = find (\<lambda>y. ?pct y = ?Mr) (x # rest)"
        by (rule find_skip [symmetric]) (rule nx)
      also have "\<dots> = find (\<lambda>y. ?pct y = ?M) (x # rest)" by (simp only: Meq)
      also have "\<dots> = (if ?Q = [] then best else find (\<lambda>y. ?pct y = ?M) (x # rest))"
        by (rule if_not_P [OF Qne, symmetric])
      finally show ?thesis .
    qed
  qed
qed

lemma track_initial:
  "track thr opps None 0 =
     (if opps \<noteq> [] \<and> 0 < Max (profit_pct_of ` set opps)
          \<and> thr \<le> Max (profit_pct_of ` set opps)
      then find (\<lambda>y. profit_pct_of y = Max (profit_pct_of ` set opps)) opps
      else None)"
proof -
  let ?pct = profit_pct_of
  let ?Q = "filter (\<lambda>y. 0 < ?pct y \<and> thr \<le> ?pct y) opps"
  let ?M = "Max (?pct ` set opps)"
  show ?thesis
  proof (cases "?Q = []")
    case True
    have "\<not> (0 < ?M \<and> thr \<le> ?M)" if "opps \<noteq> []"
    proof -
      have "?M \<in> ?pct ` set opps" by (rule Max_image_in [OF that])
      then obtain z where "z \<in> set opps" "?M = ?pct z" by blast
      with True show ?thesis by (auto simp: filter_empty_conv)
    qed
    with True show ?thesis by (auto simp: track_char)
  next
    case False
    then obtain z where z: "z \<in> set opps" "0 < ?pct z" "thr \<le> ?pct z"
      by (auto simp: filter_empty_conv)
    then have ne: "opps \<noteq> []" by auto
    have zM: "?pct z \<le> ?M" using z(1) by (rule Max_image_ge)
    have "?M \<in> ?pct ` set opps" by (rule Max_image_in [OF ne])
    then obtain m where m: "m \<in> set opps" "?M = ?pct m" by blast
    have mQ: "m \<in> set ?Q" using m z zM by auto
    have "Max (?pct ` set ?Q) = ?M"
    proof (intro Max_eqI)
      show "finite (?pct ` set ?Q)" by simp
      show "?M \<in> ?pct ` set ?Q" using mQ m(2) by blast
      fix v assume "v \<in> ?pct ` set ?Q"
      then have "v \<in> ?pct ` set opps" by auto
      then show "v \<le> ?M" by (intro Max_ge) auto
    qed
    moreover have "0 < ?M" "thr \<le> ?M" using z zM by linarith+
    ultimately show ?thesis using False ne by (simp add: track_char)
  qed
qed

text \<open>
  Claim C1 says that the best candidate is returned whenever its profit
  percentage reaches the threshold, a percentage that is not positive
  included. With the bot of the constructor and draws that make every
  exchange quote the base price, every candidate has the profit percentage
  \<open>- 200 / 1001\<close>, which is above a threshold of \<open>- 100\<close>; the scanner
  returns none, as it does for the threshold 0.
\<close>

theorem nonpositive_profit_not_returned_counterexample:
  "candidates (ArbitrageBot_init 10000) (coins (ArbitrageBot_init 10000)) (sconst (1/2))
     = Inr ([(''BTC'', Exchange_init ''Binance'' 0.1 0.015, Exchange_init ''Bybit'' 0.1 0.012,
         45000, 45000, - (200 / 1001), 45, 45),
        (''ETH'', Exchange_init ''Binance'' 0.1 0.015, Exchange_init ''Bybit'' 0.1 0.012,
         2500, 2500, - (200 / 1001), 2.5, 2.5),
        (''BNB'', Exchange_init ''Binance'' 0.1 0.015, Exchange_init ''Bybit'' 0.1 0.012,
         320, 320, - (200 / 1001), 0.32, 0.32),
        (''SOL'', Exchange_init ''Binance'' 0.1 0.015, Exchange_init ''Bybit'' 0.1 0.012,
         100, 100, - (200 / 1001), 0.1, 0.1),
        (''ADA'', Exchange_init ''Binance'' 0.1 0.015, Exchange_init ''Bybit'' 0.1 0.012,
         0.5, 0.5, - (200 / 1001), 0.0005, 0.0005),
        (''XRP'', Exchange_init ''Binance'' 0.1 0.015, Exchange_init ''Bybit'' 0.1 0.012,
         0.6, 0.6, - (200 / 1001), 0.0006, 0.0006),
        (''DOGE'', Exchange_init ''Binance'' 0.1 0.015, Exchange_init ''Bybit'' 0.1 0.012,
         0.08, 0.08, - (200 / 1001), 0.00008, 0.00008),
        (''MATIC'', Exchange_init ''Binance'' 0.1 0.015, Exchange_init ''Bybit'' 0.1 0.012,
         0.85, 0.85, - (200 / 1001), 0.00085, 0.00085)], sconst (1/2))
   \<and> (- 100 :: real) \<le> - (200 / 1001)
   \<and> find_arbitrage_opportunity (ArbitrageBot_init 10000) (- 100) (sconst (1/2)) = Inr (None, sconst (1/2))
   \<and> find_arbitrage_opportunity (ArbitrageBot_init 10000) 0 (sconst (1/2)) = Inr (None, sconst (1/2))"
  by (simp add: find_arbitrage_opportunity_def dict_get_def scan_coin_def ArbitrageBot_init_def
      Exchange_init_def get_price_def uniform_def evaluate_coin_def truediv_def
      calculate_fee_def Let_def profit_pct_of_def)

text \<open>
  Claim C1, amended. The scanner raises exactly when the scan of some coin
  raises. Otherwise, with the candidates of the coins in scan order, it
  returns the first candidate whose profit percentage is the highest of all,
  and it does so if and only if that percentage is at least
  \<^verbatim>\<open>min_profit_threshold\<close> and strictly greater than 0; it returns none
  if and only if there is no candidate, or the highest percentage is at most
  0, or it is below the threshold. A candidate whose profit percentage is not
  positive is never returned, whatever the threshold.
\<close>

theorem find_best_characterisation:
  "(candidates self (coins self) g = Inl e \<longrightarrow>
      find_arbitrage_opportunity self thr g = Inl e)
   \<and> (candidates self (coins self) g = Inr (opps, g') \<longrightarrow>
        find_arbitrage_opportunity self thr g
          = Inr (if opps \<noteq> [] \<and> 0 < Max (profit_pct_of ` set opps)
                      \<and> thr \<le> Max (profit_pct_of ` set opps)
                 then find (\<lambda>y. profit_pct_of y = Max (profit_pct_of ` set opps)) opps
                 else None, g')
        \<and> (\<forall>x. find_arbitrage_opportunity self thr g = Inr (Some x, g') \<longrightarrow>
               x \<in> set opps \<and> profit_pct_of x = Max (profit_pct_of ` set opps)
               \<and> 0 < profit_pct_of x \<and> thr \<le> profit_pct_of x)
        \<and> (find_arbitrage_opportunity self thr g = Inr (None, g') \<longleftrightarrow>
               opps = [] \<or> Max (profit_pct_of ` set opps) \<le> 0
               \<or> Max (profit_pct_of ` set opps) < thr))"
proof -
  let ?M = "Max (profit_pct_of ` set opps)"
  let ?c = "opps \<noteq> [] \<and> 0 < ?M \<and> thr \<le> ?M"
  let ?f = "find (\<lambda>y. profit_pct_of y = ?M) opps"
  have A: "candidates self (coins self) g = Inl e \<longrightarrow>
      find_arbitrage_opportunity self thr g = Inl e"
    unfolding find_arbitrage_opportunity_def by (intro impI) (rule scan_coins_candidates_Inl)
  have B: "find_arbitrage_opportunity self thr g = Inr (if ?c then ?f else None, g')
        \<and> (\<forall>x. find_arbitrage_opportunity self thr g = Inr (Some x, g') \<longrightarrow>
               x \<in> set opps \<and> profit_pct_of x = ?M
               \<and> 0 < profit_pct_of x \<and> thr \<le> profit_pct_of x)
        \<and> (find_arbitrage_opportunity self thr g = Inr (None, g') \<longleftrightarrow>
               opps = [] \<or> ?M \<le> 0 \<or> ?M < thr)"
    if c: "candidates self (coins self) g = Inr (opps, g')"
  proof -
    have eq: "find_arbitrage_opportunity self thr g = Inr (if ?c then ?f else None, g')"
      unfolding find_arbitrage_opportunity_def
      by (simp only: scan_coins_candidates_Inr [OF c] track_initial)
    have hit: "?f \<noteq> None" if "opps \<noteq> []"
    proof -
      have "?M \<in> profit_pct_of ` set opps" by (rule Max_image_in [OF that])
      then obtain x where "x \<in> set opps" "profit_pct_of x = ?M" by auto
      then show ?thesis
        using find_None_iff [of "\<lambda>y. profit_pct_of y = ?M" opps] by blast
    qed
    have some: "x \<in> set opps \<and> profit_pct_of x = ?M" if "?f = Some x" for x
      using that find_Some_iff [of "\<lambda>y. profit_pct_of y = ?M" opps x] by auto
    have S: "x \<in> set opps \<and> profit_pct_of x = ?M \<and> 0 < profit_pct_of x
          \<and> thr \<le> profit_pct_of x"
      if "find_arbitrage_opportunity self thr g = Inr (Some x, g')" for x
    proof -
      from that eq have r: "(if ?c then ?f else None) = Some x" by simp
      then have cnd: ?c by (cases ?c) simp_all
      with r have "?f = Some x" by simp
      from some [OF this] cnd show ?thesis by simp
    qed
    have N: "find_arbitrage_opportunity self thr g = Inr (None, g') \<longleftrightarrow>
               opps = [] \<or> ?M \<le> 0 \<or> ?M < thr"
    proof
      assume "find_arbitrage_opportunity self thr g = Inr (None, g')"
      with eq have r: "(if ?c then ?f else None) = None" by simp
      have "\<not> ?c"
      proof
        assume cnd: ?c
        with r have "?f = None" by simp
        with hit cnd show False by simp
      qed
      then show "opps = [] \<or> ?M \<le> 0 \<or> ?M < thr"
        using not_less [of 0 ?M] not_le [of thr ?M] by blast
    next
      assume "opps = [] \<or> ?M \<le> 0 \<or> ?M < thr"
      then have "\<not> ?c"
        using not_less [of 0 ?M] not_le [of thr ?M] by blast
      with eq show "find_arbitrage_opportunity self thr g = Inr (None, g')" by simp
    qed
    from eq S N show ?thesis by blast
  qed
  from A B show ?thesis by blast
qed

lemma candidates_example:
  "candidates (ArbitrageBot_init 10000) (coins (ArbitrageBot_init 10000)) (0 ## 1/2 ## 1/2 ## 1 ## sconst (1/2))
     = Inr ([(''BTC'', Exchange_init ''Binance'' 0.1 0.015, Exchange_init ''Bybit'' 0.1 0.012,
         44325, 45540, 45460 / 17927, 44.325, 45.54),
        (''ETH'', Exchange_init ''Binance'' 0.1 0.015, Exchange_init ''Bybit'' 0.1 0.012,
         2500, 2500, - (200 / 1001), 2.5, 2.5),
        (''BNB'', Exchange_init ''Binance'' 0.1 0.015, Exchange_init ''Bybit'' 0.1 0.012,
         320, 320, - (200 / 1001), 0.32, 0.32),
        (''SOL'', Exchange_init ''Binance'' 0.1 0.015, Exchange_init ''Bybit'' 0.1 0.012,
         100, 100, - (200 / 1001), 0.1, 0.1),
        (''ADA'', Exchange_init ''Binance'' 0.1 0.015, Exchange_init ''Bybit'' 0.1 0.012,
         0.5, 0.5, - (200 / 1001), 0.0005, 0.0005),
        (''XRP'', Exchange_init ''Binance'' 0.1 0.015, Exchange_init ''Bybit'' 0.1 0.012,
         0.6, 0.6, - (200 / 1001), 0.0006, 0.0006),
        (''DOGE'', Exchange_init ''Binance'' 0.1 0.015, Exchange_init ''Bybit'' 0.1 0.012,
         0.08, 0.08, - (200 / 1001), 0.00008, 0.00008),
        (''MATIC'', Exchange_init ''Binance'' 0.1 0.015, Exchange_init ''Bybit'' 0.1 0.012,
         0.85, 0.85, - (200 / 1001), 0.00085, 0.00085)], sconst (1/2))"
  by (simp add: find_arbitrage_opportunity_def dict_get_def scan_coin_def ArbitrageBot_init_def
      Exchange_init_def get_price_def uniform_def evaluate_coin_def truediv_def
      calculate_fee_def Let_def profit_pct_of_def)

theorem find_best_characterisation_witness:
  "candidates (ArbitrageBot_init 10000) (coins (ArbitrageBot_init 10000)) (0 ## 1/2 ## 1/2 ## 1 ## sconst (1/2))
     = Inr ([(''BTC'', Exchange_init ''Binance'' 0.1 0.015, Exchange_init ''Bybit'' 0.1 0.012,
         44325, 45540, 45460 / 17927, 44.325, 45.54),
        (''ETH'', Exchange_init ''Binance'' 0.1 0.015, Exchange_init ''Bybit'' 0.1 0.012,
         2500, 2500, - (200 / 1001), 2.5, 2.5),
        (''BNB'', Exchange_init ''Binance'' 0.1 0.015, Exchange_init ''Bybit'' 0.1 0.012,
         320, 320, - (200 / 1001), 0.32, 0.32),
        (''SOL'', Exchange_init ''Binance'' 0.1 0.015, Exchange_init ''Bybit'' 0.1 0.012,
         100, 100, - (200 / 1001), 0.1, 0.1),
        (''ADA'', Exchange_init ''Binance'' 0.1 0.015, Exchange_init ''Bybit'' 0.1 0.012,
         0.5, 0.5, - (200 / 1001), 0.0005, 0.0005),
        (''XRP'', Exchange_init ''Binance'' 0.1 0.015, Exchange_init ''Bybit'' 0.1 0.012,
         0.6, 0.6, - (200 / 1001), 0.0006, 0.0006),
        (''DOGE'', Exchange_init ''Binance'' 0.1 0.015, Exchange_init ''Bybit'' 0.1 0.012,
         0.08, 0.08, - (200 / 1001), 0.00008, 0.00008),
        (''MATIC'', Exchange_init ''Binance'' 0.1 0.015, Exchange_init ''Bybit'' 0.1 0.012,
         0.85, 0.85, - (200 / 1001), 0.00085, 0.00085)], sconst (1/2))
   \<and> find_arbitrage_opportunity (ArbitrageBot_init 10000) 1 (0 ## 1/2 ## 1/2 ## 1 ## sconst (1/2))
     = Inr (Some (''BTC'', Exchange_init ''Binance'' 0.1 0.015, Exchange_init ''Bybit'' 0.1 0.012,
         44325, 45540, 45460 / 17927, 44.325, 45.54), sconst (1/2))
   \<and> profit_pct_of (''BTC'', Exchange_init ''Binance'' 0.1 0.015, Exchange_init ''Bybit'' 0.1 0.012,
         44325, 45540, 45460 / 17927, 44.325, 45.54)
     = Max (profit_pct_of ` set [(''BTC'', Exchange_init ''Binance'' 0.1 0.015, Exchange_init ''Bybit'' 0.1 0.012,
         44325, 45540, 45460 / 17927, 44.325, 45.54),
        (''ETH'', Exchange_init ''Binance'' 0.1 0.015, Exchange_init ''Bybit'' 0.1 0.012,
         2500, 2500, - (200 / 1001), 2.5, 2.5),
        (''BNB'', Exchange_init ''Binance'' 0.1 0.015, Exchange_init ''Bybit'' 0.1 0.012,
         320, 320, - (200 / 1001), 0.32, 0.32),
        (''SOL'', Exchange_init ''Binance'' 0.1 0.015, Exchange_init ''Bybit'' 0.1 0.012,
         100, 100, - (200 / 1001), 0.1, 0.1),
        (''ADA'', Exchange_init ''Binance'' 0.1 0.015, Exchange_init ''Bybit'' 0.1 0.012,
         0.5, 0.5, - (200 / 1001), 0.0005, 0.0005),
        (''XRP'', Exchange_init ''Binance'' 0.1 0.015, Exchange_init ''Bybit'' 0.1 0.012,
         0.6, 0.6, - (200 / 1001), 0.0006, 0.0006),
        (''DOGE'', Exchange_init ''Binance'' 0.1 0.015, Exchange_init ''Bybit'' 0.1 0.012,
         0.08, 0.08, - (200 / 1001), 0.00008, 0.00008),
        (''MATIC'', Exchange_init ''Binance'' 0.1 0.015, Exchange_init ''Bybit'' 0.1 0.012,
         0.85, 0.85, - (200 / 1001), 0.00085, 0.00085)])
   \<and> 0 < profit_pct_of (''BTC'', Exchange_init ''Binance'' 0.1 0.015, Exchange_init ''Bybit'' 0.1 0.012,
         44325, 45540, 45460 / 17927, 44.325, 45.54)
   \<and> 1 \<le> profit_pct_of (''BTC'', Exchange_init ''Binance'' 0.1 0.015, Exchange_init ''Bybit'' 0.1 0.012,
         44325, 45540, 45460 / 17927, 44.325, 45.54)"
proof -
  note t = find_best_characterisation [where self = "ArbitrageBot_init 10000"
      and g = "0 ## 1/2 ## 1/2 ## 1 ## sconst (1/2)" and thr = 1 and g' = "sconst (1/2)"
      and opps = "[(''BTC'', Exchange_init ''Binance'' 0.1 0.015, Exchange_init ''Bybit'' 0.1 0.012,
         44325, 45540, 45460 / 17927, 44.325, 45.54),
        (''ETH'', Exchange_init ''Binance'' 0.1 0.015, Exchange_init ''Bybit'' 0.1 0.012,
         2500, 2500, - (200 / 1001), 2.5, 2.5),
        (''BNB'', Exchange_init ''Binance'' 0.1 0.015, Exchange_init ''Bybit'' 0.1 0.012,
         320, 320, - (200 / 1001), 0.32, 0.32),
        (''SOL'', Exchange_init ''Binance'' 0.1 0.015, Exchange_init ''Bybit'' 0.1 0.012,
         100, 100, - (200 / 1001), 0.1, 0.1),
        (''ADA'', Exchange_init ''Binance'' 0.1 0.015, Exchange_init ''Bybit'' 0.1 0.012,
         0.5, 0.5, - (200 / 1001), 0.0005, 0.0005),
        (''XRP'', Exchange_init ''Binance'' 0.1 0.015, Exchange_init ''Bybit'' 0.1 0.012,
         0.6, 0.6, - (200 / 1001), 0.0006, 0.0006),
        (''DOGE'', Exchange_init ''Binance'' 0.1 0.015, Exchange_init ''Bybit'' 0.1 0.012,
         0.08, 0.08, - (200 / 1001), 0.00008, 0.00008),
        (''MATIC'', Exchange_init ''Binance'' 0.1 0.015, Exchange_init ''Bybit'' 0.1 0.012,
         0.85, 0.85, - (200 / 1001), 0.00085, 0.00085)]",
      THEN conjunct2, rule_format, OF candidates_example]
  note s = t [THEN conjunct2, THEN conjunct1, rule_format, OF find_example]
  show ?thesis
    by (intro conjI)
      (rule candidates_example, rule find_example, rule s [THEN conjunct2, THEN conjunct1],
       rule s [THEN conjunct2, THEN conjunct2, THEN conjunct1],
       rule s [THEN conjunct2, THEN conjunct2, THEN conjunct2])
qed

section \<open>The ledger: verified properties\<close>

text \<open>
  Claim C8. For every bot, \<^verbatim>\<open>execute_trade\<close> called with no opportunity
  returns no record and adds one to the missed-trade counter; the capital,
  the cumulative profit, the success counter, the trade history and the
  configuration are as they were.
\<close>

theorem execute_trade_none_frame:
  "\<exists>self'. execute_trade self None now = Inr (self', None)
     \<and> failed_trades self' = failed_trades self + 1
     \<and> capital self' = capital self
     \<and> total_profit self' = total_profit self
     \<and> successful_trades self' = successful_trades self
     \<and> trades self' = trades self
     \<and> exchanges self' = exchanges self
     \<and> base_prices self' = base_prices self
     \<and> coins self' = coins self"
  by (simp add: execute_trade_def)

text \<open>
  Claim C5. For an opportunity (with a buy price other than zero, at which
  Python's division raises) and a capital \<open>C\<close>, \<^verbatim>\<open>execute_trade\<close> trades
  the quantity \<open>(0.1 * C) / buy_price\<close>; the net profit is the revenue
  \<open>quantity * (sell_price - sell_fee)\<close> minus the cost
  \<open>quantity * (buy_price + buy_fee)\<close>, and it is added to the capital and to
  the cumulative profit. The success counter grows by one and the record is
  appended to the history. The instance of the statement at capital 10000,
  buy price 100, sell price 110 and no fees follows it: quantity 10, net
  profit 100, capital 10100.
\<close>

theorem execute_trade_sizing:
  assumes "buy_price \<noteq> 0"
  shows "\<exists>self' r.
     execute_trade self
       (Some (coin, buy_ex, sell_ex, buy_price, sell_price, profit_pct, buy_fee, sell_fee)) now
       = Inr (self', Some r)
     \<and> tr_quantity r = (0.1 * capital self) / buy_price
     \<and> tr_net_profit r =
         tr_quantity r * (sell_price - sell_fee) - tr_quantity r * (buy_price + buy_fee)
     \<and> capital self' = capital self + tr_net_profit r
     \<and> total_profit self' = total_profit self + tr_net_profit r
     \<and> successful_trades self' = successful_trades self + 1
     \<and> failed_trades self' = failed_trades self
     \<and> trades self' = trades self @ [r]
     \<and> tr_capital_after r = capital self'"
  using assms by (simp add: execute_trade_def truediv_def Let_def algebra_simps)

theorem execute_trade_sizing_witness:
  "(100::real) \<noteq> 0 \<and>
   (\<exists>self' r.
     execute_trade (ArbitrageBot_init 10000)
       (Some (''SOL'', Exchange_init ''A'' 0 0, Exchange_init ''B'' 0 0, 100, 110, 10, 0, 0))
       ''2024-01-01 00:00:00''
       = Inr (self', Some r)
     \<and> tr_quantity r = 10 \<and> tr_net_profit r = 100 \<and> capital self' = 10100
     \<and> total_profit self' = 100)"
  using execute_trade_sizing [of 100 "ArbitrageBot_init 10000" "''SOL''"
      "Exchange_init ''A'' 0 0" "Exchange_init ''B'' 0 0" 110 10 0 0 "''2024-01-01 00:00:00''"]
  by (auto simp add: ArbitrageBot_init_def)

section \<open>The aggregate summary: verified properties\<close>

lemma roi_lines_eq:
  "roi_lines self =
     (if capital self - total_profit self > 0
      then ([ROI (total_profit self / (capital self - total_profit self) * 100)], None)
      else ([], None))"
  by (simp add: roi_lines_def truediv_def)

lemma avg_lines_eq:
  "avg_lines self =
     (if successful_trades self > 0
      then ([AvgProfit (total_profit self / real (successful_trades self))], None)
      else ([], None))"
  by (simp add: avg_lines_def truediv_def)

text \<open>
  Claim C9. The two guarded computations of the summary never raise. An ROI
  line is printed only when the capital basis (capital minus total profit) is
  strictly positive, and an average-profit line only when the count of
  successful trades is strictly positive; each then shows the quotient. The
  summary as a whole ends in an exception exactly when no iteration has been
  counted (the success rate of line 209 then divides by zero, before either
  guard is reached); otherwise each of the two lines is printed exactly when
  its guard holds.
\<close>

theorem summary_guards:
  "snd (roi_lines self) = None \<and> snd (avg_lines self) = None
   \<and> (\<forall>r. ROI r \<in> set (fst (print_overall_summary self)) \<longrightarrow>
          capital self - total_profit self > 0
          \<and> r = total_profit self / (capital self - total_profit self) * 100)
   \<and> (\<forall>a. AvgProfit a \<in> set (fst (print_overall_summary self)) \<longrightarrow>
          successful_trades self > 0
          \<and> a = total_profit self / real (successful_trades self))
   \<and> (snd (print_overall_summary self) \<noteq> None \<longleftrightarrow>
          successful_trades self + failed_trades self = 0)
   \<and> (successful_trades self + failed_trades self > 0 \<longrightarrow>
         ((\<exists>r. ROI r \<in> set (fst (print_overall_summary self)))
            \<longleftrightarrow> capital self - total_profit self > 0)
         \<and> ((\<exists>a. AvgProfit a \<in> set (fst (print_overall_summary self)))
            \<longleftrightarrow> successful_trades self > 0))"
  by (auto simp add: print_overall_summary_def roi_lines_eq avg_lines_eq truediv_def Let_def
      split: if_splits)

theorem summary_guards_witness:
  "ROI 1 \<in> set (fst (print_overall_summary
      ((ArbitrageBot_init 10000)\<lparr>capital := 10100, total_profit := 100,
         successful_trades := 2, failed_trades := 1\<rparr>)))
   \<and> AvgProfit 50 \<in> set (fst (print_overall_summary
      ((ArbitrageBot_init 10000)\<lparr>capital := 10100, total_profit := 100,
         successful_trades := 2, failed_trades := 1\<rparr>)))
   \<and> snd (print_overall_summary
      ((ArbitrageBot_init 10000)\<lparr>capital := 10100, total_profit := 100,
         successful_trades := 2, failed_trades := 1\<rparr>)) = None
   \<and> AvgProfit 0 \<notin> set (fst (print_overall_summary
      ((ArbitrageBot_init 10000)\<lparr>failed_trades := 3\<rparr>)))
   \<and> snd (print_overall_summary (ArbitrageBot_init 10000)) = Some ZeroDivisionError"
  using summary_guards [of "(ArbitrageBot_init 10000)\<lparr>capital := 10100, total_profit := 100,
         successful_trades := 2, failed_trades := 1\<rparr>"]
    summary_guards [of "(ArbitrageBot_init 10000)\<lparr>failed_trades := 3\<rparr>"]
    summary_guards [of "ArbitrageBot_init 10000"]
  by (simp add: print_overall_summary_def roi_lines_def avg_lines_def truediv_def
      ArbitrageBot_init_def Let_def)

end
